theory Spec2Isabelle
  imports Complex_Main
begin

section \<open>PyInputPlus: the prompt, validate and retry loop\<close>

text \<open>
  A shallow embedding of \<^verbatim>\<open>pyinputplus/__init__.py\<close>: the bound-check helper
  \<^verbatim>\<open>_checkLimitAndTimeout\<close>, the core loop \<^verbatim>\<open>_genericInput\<close> and the validation
  closures of the wrappers \<^verbatim>\<open>inputRegex\<close>, \<^verbatim>\<open>inputChoice\<close> and \<^verbatim>\<open>inputMenu\<close>.

  Conventions of the model:
  \<^item> Python text is a \<open>string\<close> and a Python \<open>int\<close> is an \<open>int\<close>. A Python
    \<open>float\<close> is a real number, an infinity or not-a-number; every reading of
    \<^verbatim>\<open>time.time()\<close> is a real number. Sums of finite floats and the conversion of an \<open>int\<close> to a \<open>float\<close>
    are exact in the model: floating point rounding is not modelled. The conversion
    fails with \<open>OverflowError\<close> where Python's does.
  \<^item> The standard input is the list of lines still to be read; \<^verbatim>\<open>input()\<close> on the
    empty list raises \<open>EOFError\<close>, as Python does at the end of the stream.
  \<^item> The wall clock is a function \<open>clock\<close>: \<open>clock 0\<close> is the reading taken at line
    129 (\<^verbatim>\<open>startTime = time.time()\<close>) and \<open>clock k\<close> is the reading the helper takes
    at line 70 when it is called after the \<open>k\<close>-th line was read. The source reads the
    clock at most once per attempt, so every run corresponds to one such function.
  \<^item> A caller-supplied callable is a function \<open>string \<Rightarrow> exn + string\<close>: \<open>Inr v\<close> is
    a normal return of \<open>v\<close>, \<open>Inl e\<close> is the exception \<open>e\<close> raised. It may raise any
    exception, the Timeout and RetryLimit exceptions of this module included. All the
    exceptions of the model are subclasses of \<^verbatim>\<open>Exception\<close>; \<open>UserException\<close> stands for
    any class that the module does not raise itself, with the text of the exception.
  \<^item> Everything the loop does to its environment is recorded, in order, in a list of
    events.
\<close>

subsection \<open>Exceptions, dynamic values, events\<close>

datatype exn =
    PyInputPlusException string
  | TimeoutException
  | RetryLimitException
  | PySimpleValidateException string
  | EOFError
  | TypeError
  | OverflowError
  | UserException string

text \<open>\<^verbatim>\<open>str(exc)\<close>, the text that line 165 prints for a caught exception.\<close>

fun exn_text :: "exn \<Rightarrow> string" where
  "exn_text (PyInputPlusException msg) = msg"
| "exn_text (PySimpleValidateException msg) = msg"
| "exn_text (UserException msg) = msg"
| "exn_text e = []"

type_synonym pyfun = "string \<Rightarrow> exn + string"

datatype pyfloat = Finite real | PosInf | NegInf | NaN

text \<open>
  The values an argument of \<^verbatim>\<open>_genericInput\<close> can be bound to. \<open>PFunc\<close> is a function
  object (\<^verbatim>\<open>FUNC_TYPE\<close>, line 20), \<open>PMethodDescriptor\<close> a method descriptor such as
  \<^verbatim>\<open>str.upper\<close> (\<^verbatim>\<open>METHOD_DESCRIPTOR_TYPE\<close>, line 21), \<open>PCallable\<close> any other callable
  object (a builtin, a class, a partial application).
\<close>

datatype pyval =
    PNone
  | PBool bool
  | PInt int
  | PFloat pyfloat
  | PStr string
  | PSeq "pyval list"
  | PFunc pyfun
  | PMethodDescriptor pyfun
  | PCallable pyfun

datatype event =
    Print string
  | Read string
  | Apply string
  | Validate string
  | Check nat
  | PostApply string

datatype outcome = Returned string | Raised exn

subsection \<open>Numbers in the timeout test (line 70)\<close>

text \<open>
  The timeout that passed the check of line 118 is an \<open>int\<close> (a \<open>bool\<close> included) or a
  \<open>float\<close>. In \<^verbatim>\<open>startTime + timeout\<close> the left operand is a float, so an \<open>int\<close> on the
  right is converted to a float first; the conversion rounds to the nearest float and
  raises \<open>OverflowError\<close> when the result would not be finite, that is from
  \<open>2^1024 - 2^970\<close> on in absolute value.
\<close>

datatype pynum = NInt int | NFloat pyfloat

definition int_too_large :: "int \<Rightarrow> bool" where
  "int_too_large i = (2 ^ 1024 - 2 ^ 970 \<le> \<bar>i\<bar>)"

fun float_of_num :: "pynum \<Rightarrow> exn + pyfloat" where
  "float_of_num (NInt i) =
     (if int_too_large i then Inl OverflowError else Inr (Finite (of_int i)))"
| "float_of_num (NFloat f) = Inr f"

fun float_add :: "pyfloat \<Rightarrow> pyfloat \<Rightarrow> pyfloat" where
  "float_add (Finite x) (Finite y) = Finite (x + y)"
| "float_add NaN g = NaN"
| "float_add f NaN = NaN"
| "float_add PosInf NegInf = NaN"
| "float_add NegInf PosInf = NaN"
| "float_add PosInf g = PosInf"
| "float_add f PosInf = PosInf"
| "float_add NegInf g = NegInf"
| "float_add f NegInf = NegInf"

fun float_less :: "pyfloat \<Rightarrow> pyfloat \<Rightarrow> bool" where
  "float_less (Finite x) (Finite y) = (x < y)"
| "float_less NaN g = False"
| "float_less f NaN = False"
| "float_less f NegInf = False"
| "float_less NegInf g = True"
| "float_less PosInf g = False"
| "float_less (Finite x) PosInf = True"

subsection \<open>The bound-check helper (lines 50 to 82)\<close>

datatype check_result = NoBound | UseDefault string | BoundedFailure exn

text \<open>
  \<open>time_time\<close> is the value that the call \<^verbatim>\<open>time.time()\<close> of line 70 returns. The
  source evaluates that call inside the helper, and only when \<open>timeout\<close> is not
  \<^verbatim>\<open>None\<close>. \<open>timeoutExpired\<close> is the condition of line 70,
  \<^verbatim>\<open>timeout is not None and startTime + timeout < time.time()\<close>; it raises when the sum
  does.
\<close>

definition timeoutExpired :: "real \<Rightarrow> pynum option \<Rightarrow> real \<Rightarrow> exn + bool" where
  "timeoutExpired startTime timeout time_time =
     (case timeout of
        None \<Rightarrow> Inr False
      | Some t \<Rightarrow>
          (case float_of_num t of
             Inl e \<Rightarrow> Inl e
           | Inr f \<Rightarrow> Inr (float_less (float_add (Finite startTime) f) (Finite time_time))))"

text \<open>
  The helper returns Python's \<^verbatim>\<open>None\<close>, the default, or an exception object that is
  returned, not raised (\<open>Inr\<close>); an exception of line 70 leaves it (\<open>Inl\<close>).
\<close>

definition checkLimitAndTimeout ::
  "real \<Rightarrow> string option \<Rightarrow> real \<Rightarrow> pynum option \<Rightarrow> int \<Rightarrow> int option
     \<Rightarrow> exn + check_result" where
  "checkLimitAndTimeout time_time default_val startTime timeout tries limit =
     (case timeoutExpired startTime timeout time_time of
        Inl e \<Rightarrow> Inl e
      | Inr expired \<Rightarrow>
          if expired then
            (case default_val of Some d \<Rightarrow> Inr (UseDefault d)
                               | None \<Rightarrow> Inr (BoundedFailure TimeoutException))
          else if (case limit of None \<Rightarrow> False | Some n \<Rightarrow> tries \<ge> n) then
            (case default_val of Some d \<Rightarrow> Inr (UseDefault d)
                               | None \<Rightarrow> Inr (BoundedFailure RetryLimitException))
          else Inr NoBound)"

subsection \<open>The strip policy (lines 139 to 144)\<close>

datatype strip_policy = StripNone | StripBool bool | StripChars string

text \<open>
  The characters \<^verbatim>\<open>str.strip()\<close> removes when it is given no argument, among the code
  points below 256.
\<close>

definition isspace :: "char \<Rightarrow> bool" where
  "isspace c = (let n = (of_char c :: nat)
                in (9 \<le> n \<and> n \<le> 13) \<or> (28 \<le> n \<and> n \<le> 32) \<or> n = 133 \<or> n = 160)"

definition str_strip :: "(char \<Rightarrow> bool) \<Rightarrow> string \<Rightarrow> string" where
  "str_strip P s = rev (dropWhile P (rev (dropWhile P s)))"

fun applyStrip :: "strip_policy \<Rightarrow> string \<Rightarrow> string" where
  "applyStrip StripNone userInput = userInput"
| "applyStrip (StripBool True) userInput = str_strip isspace userInput"
| "applyStrip (StripBool False) userInput = userInput"
| "applyStrip (StripChars cs) userInput = str_strip (\<lambda>c. c \<in> set cs) userInput"

subsection \<open>The parameter checks of the core loop (lines 110 to 127)\<close>

record args =
  prompt :: pyval
  default_val :: pyval
  blank :: pyval
  timeout :: pyval
  limit :: pyval
  strip :: pyval
  whitelistRegexes :: pyval
  blacklistRegexes :: pyval
  applyFunc :: pyval
  validationFunc :: pyval
  postValidateApplyFunc :: pyval

text \<open>
  What the checks leave: each checked argument at the type its \<^verbatim>\<open>isinstance\<close> test
  guarantees. \<open>blank\<close> and the two regex lists are not read again after line 117 and
  \<open>postValidateApplyFunc\<close> is not checked, so it stays a dynamic value.
\<close>

record config =
  c_prompt :: string
  c_default :: "string option"
  c_timeout :: "pynum option"
  c_limit :: "int option"
  c_strip :: strip_policy
  c_applyFunc :: "pyfun option"
  c_validationFunc :: pyfun
  c_postValidateApplyFunc :: pyval

text \<open>\<^verbatim>\<open>bool\<close> is a subclass of \<^verbatim>\<open>int\<close>: \<^verbatim>\<open>True\<close> counts as 1 and \<^verbatim>\<open>False\<close> as 0.\<close>

fun is_none :: "pyval \<Rightarrow> bool" where
  "is_none PNone = True"
| "is_none v = False"

fun is_str :: "pyval \<Rightarrow> bool" where
  "is_str (PStr s) = True"
| "is_str v = False"

fun is_int :: "pyval \<Rightarrow> bool" where
  "is_int (PInt i) = True"
| "is_int (PBool b) = True"
| "is_int v = False"

fun is_float :: "pyval \<Rightarrow> bool" where
  "is_float (PFloat x) = True"
| "is_float v = False"

fun is_bool :: "pyval \<Rightarrow> bool" where
  "is_bool (PBool b) = True"
| "is_bool v = False"

fun is_function :: "pyval \<Rightarrow> bool" where
  "is_function (PFunc f) = True"
| "is_function (PMethodDescriptor f) = True"
| "is_function v = False"

fun str_of :: "pyval \<Rightarrow> string option" where
  "str_of (PStr s) = Some s"
| "str_of v = None"

fun int_of :: "pyval \<Rightarrow> int option" where
  "int_of (PInt i) = Some i"
| "int_of (PBool b) = Some (if b then 1 else 0)"
| "int_of v = None"

fun num_of :: "pyval \<Rightarrow> pynum option" where
  "num_of (PInt i) = Some (NInt i)"
| "num_of (PBool b) = Some (NInt (if b then 1 else 0))"
| "num_of (PFloat x) = Some (NFloat x)"
| "num_of v = None"

fun strip_of :: "pyval \<Rightarrow> strip_policy" where
  "strip_of (PBool b) = StripBool b"
| "strip_of (PStr cs) = StripChars cs"
| "strip_of v = StripNone"

fun fun_of :: "pyval \<Rightarrow> pyfun option" where
  "fun_of (PFunc f) = Some f"
| "fun_of (PMethodDescriptor f) = Some f"
| "fun_of (PCallable f) = Some f"
| "fun_of v = None"

definition checkArgs :: "args \<Rightarrow> exn + config" where
  "checkArgs a =
     (if \<not> is_str (prompt a) then
        Inl (PyInputPlusException ''prompt argument must be a str'')
      else if \<not> (is_str (default_val a) \<or> is_none (default_val a)) then
        Inl (PyInputPlusException ''default argument must be a str or None'')
      else if \<not> (is_int (timeout a) \<or> is_float (timeout a) \<or> is_none (timeout a)) then
        Inl (PyInputPlusException ''timeout argument must be an int or float'')
      else if \<not> (is_int (limit a) \<or> is_none (limit a)) then
        Inl (PyInputPlusException ''limit argument must be an int'')
      else if \<not> (is_str (strip a) \<or> is_none (strip a) \<or> is_bool (strip a)) then
        Inl (PyInputPlusException ''strip argument must be a str, None, or bool'')
      else if \<not> is_function (validationFunc a) then
        Inl (PyInputPlusException ''validationFunc argument must be a function'')
      else if \<not> (is_function (applyFunc a) \<or> is_none (applyFunc a)) then
        Inl (PyInputPlusException ''applyFunc argument must be a function'')
      else
        Inr \<lparr> c_prompt = the (str_of (prompt a)),
              c_default = str_of (default_val a),
              c_timeout = num_of (timeout a),
              c_limit = int_of (limit a),
              c_strip = strip_of (strip a),
              c_applyFunc = fun_of (applyFunc a),
              c_validationFunc = the (fun_of (validationFunc a)),
              c_postValidateApplyFunc = postValidateApplyFunc a \<rparr>)"

subsection \<open>One pass through the loop body (lines 137 to 173)\<close>

datatype step = Done outcome | Retry string

definition callFunc :: "pyfun \<Rightarrow> string \<Rightarrow> outcome" where
  "callFunc f x = (case f x of Inl e \<Rightarrow> Raised e | Inr v \<Rightarrow> Returned v)"

text \<open>Lines 170 to 173: the value returned once validation has passed.\<close>

definition postValidate :: "pyval \<Rightarrow> string \<Rightarrow> outcome \<times> event list" where
  "postValidate post userInput =
     (if is_none post then (Returned userInput, [])
      else case fun_of post of
             Some g \<Rightarrow> (callFunc g userInput, [PostApply userInput])
           | None \<Rightarrow> (Raised TypeError, []))"

text \<open>Lines 150 to 152: the optional transform applied before validation.\<close>

definition applyTransform :: "config \<Rightarrow> string \<Rightarrow> (exn + string) \<times> event list" where
  "applyTransform cfg userInput =
     (case c_applyFunc cfg of
        None \<Rightarrow> (Inr userInput, [])
      | Some f \<Rightarrow> (f userInput, [Apply userInput]))"

text \<open>
  \<open>attempt cfg startTime time_time tries line\<close> is the loop body after the read, with
  \<open>tries\<close> already incremented (line 137) and \<open>line\<close> the text \<^verbatim>\<open>input()\<close> returned.
  It gives the events of the pass (the prompt and the read apart) and either the outcome
  that ends the loop or the rejection reason that line 165 prints before the next pass.
  An exception of \<open>applyFunc\<close> is not caught (line 152 is outside the \<^verbatim>\<open>try\<close>); an
  exception of \<open>validationFunc\<close> is the rejection (lines 157 to 159), and its text is
  the reason; an exception of the helper, raised inside the handler, is not caught
  either. \<open>Check\<close> records the call of the helper.
\<close>

definition attempt :: "config \<Rightarrow> real \<Rightarrow> real \<Rightarrow> nat \<Rightarrow> string \<Rightarrow> step \<times> event list" where
  "attempt cfg startTime time_time tries line =
     (let userInput = applyStrip (c_strip cfg) line in
      if userInput = [] \<and> c_default cfg \<noteq> None then
        (Done (Returned (the (c_default cfg))), [])
      else
        (case applyTransform cfg userInput of
           (Inl e, evs) \<Rightarrow> (Done (Raised e), evs)
         | (Inr userInput, evs) \<Rightarrow>
             (case c_validationFunc cfg userInput of
                Inl exc \<Rightarrow>
                  (case checkLimitAndTimeout time_time (c_default cfg) startTime
                          (c_timeout cfg) (int tries) (c_limit cfg) of
                     Inl e \<Rightarrow>
                       (Done (Raised e), evs @ [Validate userInput, Check tries])
                   | Inr (UseDefault d) \<Rightarrow>
                       (Done (Returned d), evs @ [Validate userInput, Check tries])
                   | Inr NoBound \<Rightarrow>
                       (Retry (exn_text exc), evs @ [Validate userInput, Check tries])
                   | Inr (BoundedFailure e) \<Rightarrow>
                       (Done (Raised e), evs @ [Validate userInput, Check tries]))
              | Inr ignored \<Rightarrow>
                  (case postValidate (c_postValidateApplyFunc cfg) userInput of
                     (out, pevs) \<Rightarrow> (Done out, evs @ Validate userInput # pevs)))))"

subsection \<open>The loop (lines 129 to 173) and the whole function\<close>

text \<open>
  \<open>tries\<close> is the number of lines read so far. Each pass prints the prompt (line 134),
  reads a line (line 135) and runs the body; a rejection that reaches no bound prints
  the reason followed by a newline (line 165) and starts the next pass.
\<close>

fun inputLoop :: "config \<Rightarrow> (nat \<Rightarrow> real) \<Rightarrow> real \<Rightarrow> nat \<Rightarrow> string list \<Rightarrow> outcome \<times> event list" where
  "inputLoop cfg clock startTime tries [] = (Raised EOFError, [Print (c_prompt cfg)])"
| "inputLoop cfg clock startTime tries (line # rest) =
     (case attempt cfg startTime (clock (Suc tries)) (Suc tries) line of
        (Done out, evs) \<Rightarrow> (out, Print (c_prompt cfg) # Read line # evs)
      | (Retry reason, evs) \<Rightarrow>
          (case inputLoop cfg clock startTime (Suc tries) rest of
             (out, tr) \<Rightarrow>
               (out, Print (c_prompt cfg) # Read line # evs @ Print (reason @ [CHR 0x0A]) # tr)))"

text \<open>
  \<open>validateGenericParameters\<close> stands for \<^verbatim>\<open>pysv._validateGenericParameters\<close> of the
  PySimpleValidate library (line 111): \<open>Some msg\<close> when it raises, \<open>None\<close> when it
  returns.
\<close>

definition genericInput ::
  "(pyval \<Rightarrow> pyval \<Rightarrow> pyval \<Rightarrow> pyval \<Rightarrow> string option) \<Rightarrow> (nat \<Rightarrow> real) \<Rightarrow> string list \<Rightarrow> args
     \<Rightarrow> outcome \<times> event list" where
  "genericInput validateGenericParameters clock stdin a =
     (case validateGenericParameters (blank a) (strip a) (whitelistRegexes a)
             (blacklistRegexes a) of
        Some msg \<Rightarrow> (Raised (PySimpleValidateException msg), [])
      | None \<Rightarrow>
          (case checkArgs a of
             Inl e \<Rightarrow> (Raised e, [])
           | Inr cfg \<Rightarrow> inputLoop cfg clock (clock 0) 0 stdin))"

subsection \<open>The validation rules of three wrappers\<close>

text \<open>
  The wrappers \<^verbatim>\<open>inputRegex\<close> (lines 356 to 363), \<^verbatim>\<open>inputChoice\<close> (lines 240 to 257)
  and \<^verbatim>\<open>inputMenu\<close> (lines 260 to 284) each build a \<^verbatim>\<open>lambda\<close> that calls a validator
  of the PySimpleValidate library, and hand it to the core loop as \<open>validationFunc\<close>.
  A call of such a validator is the record of its arguments, by keyword; the validator
  itself is a parameter. The prompt that \<^verbatim>\<open>inputChoice\<close> and \<^verbatim>\<open>inputMenu\<close> build from the
  choices is not modelled.
\<close>

record validateRegex_call =
  vr_value :: pyval
  vr_regex :: pyval
  vr_flags :: pyval
  vr_blank :: pyval
  vr_strip :: pyval
  vr_whitelistRegexes :: pyval
  vr_blacklistRegexes :: pyval

record validateChoice_call =
  vc_value :: pyval
  vc_choices :: pyval
  vc_blank :: pyval
  vc_strip :: pyval
  vc_whitelistRegexes :: pyval
  vc_blacklistRegexes :: pyval
  vc_numbered :: pyval
  vc_lettered :: pyval
  vc_caseSensitive :: pyval

text \<open>Line 359: the call made by the \<^verbatim>\<open>lambda\<close> of \<^verbatim>\<open>inputRegex\<close> on \<open>value\<close>.\<close>

definition inputRegex_call :: "pyval \<Rightarrow> pyval \<Rightarrow> args \<Rightarrow> string \<Rightarrow> validateRegex_call" where
  "inputRegex_call regex flags a value =
     \<lparr> vr_value = PStr value, vr_regex = PStr [], vr_flags = PInt 0, vr_blank = blank a,
       vr_strip = strip a, vr_whitelistRegexes = whitelistRegexes a,
       vr_blacklistRegexes = blacklistRegexes a \<rparr>"

definition inputRegex_validationFunc ::
  "(validateRegex_call \<Rightarrow> exn + string) \<Rightarrow> pyval \<Rightarrow> pyval \<Rightarrow> args \<Rightarrow> pyfun" where
  "inputRegex_validationFunc validateRegex regex flags a =
     (\<lambda>value. validateRegex (inputRegex_call regex flags a value))"

definition inputRegex ::
  "(validateRegex_call \<Rightarrow> exn + string) \<Rightarrow> (pyval \<Rightarrow> pyval \<Rightarrow> pyval \<Rightarrow> pyval \<Rightarrow> string option)
     \<Rightarrow> (nat \<Rightarrow> real) \<Rightarrow> string list \<Rightarrow> pyval \<Rightarrow> pyval \<Rightarrow> args \<Rightarrow> outcome \<times> event list" where
  "inputRegex validateRegex validateGenericParameters clock stdin regex flags a =
     genericInput validateGenericParameters clock stdin
       (a \<lparr> validationFunc := PFunc (inputRegex_validationFunc validateRegex regex flags a) \<rparr>)"

text \<open>Lines 248 to 250: the call made by the \<^verbatim>\<open>lambda\<close> of \<^verbatim>\<open>inputChoice\<close>.\<close>

definition inputChoice_call ::
  "pyval \<Rightarrow> pyval \<Rightarrow> pyval \<Rightarrow> pyval \<Rightarrow> args \<Rightarrow> string \<Rightarrow> validateChoice_call" where
  "inputChoice_call choices numbered lettered caseSensitive a value =
     \<lparr> vc_value = PStr value, vc_choices = choices, vc_blank = blank a, vc_strip = strip a,
       vc_whitelistRegexes = whitelistRegexes a, vc_blacklistRegexes = blacklistRegexes a,
       vc_numbered = PBool False, vc_lettered = PBool False, vc_caseSensitive = PBool False \<rparr>"

definition inputChoice_validationFunc ::
  "(validateChoice_call \<Rightarrow> exn + string) \<Rightarrow> pyval \<Rightarrow> pyval \<Rightarrow> pyval \<Rightarrow> pyval \<Rightarrow> args
     \<Rightarrow> pyfun" where
  "inputChoice_validationFunc validateChoice choices numbered lettered caseSensitive a =
     (\<lambda>value. validateChoice (inputChoice_call choices numbered lettered caseSensitive a value))"

text \<open>Lines 268 to 270: the call made by the \<^verbatim>\<open>lambda\<close> of \<^verbatim>\<open>inputMenu\<close>.\<close>

definition inputMenu_call ::
  "pyval \<Rightarrow> pyval \<Rightarrow> pyval \<Rightarrow> pyval \<Rightarrow> args \<Rightarrow> string \<Rightarrow> validateChoice_call" where
  "inputMenu_call choices numbered lettered caseSensitive a value =
     \<lparr> vc_value = PStr value, vc_choices = choices, vc_blank = blank a, vc_strip = strip a,
       vc_whitelistRegexes = whitelistRegexes a, vc_blacklistRegexes = blacklistRegexes a,
       vc_numbered = PBool False, vc_lettered = PBool False, vc_caseSensitive = PBool False \<rparr>"

definition inputMenu_validationFunc ::
  "(validateChoice_call \<Rightarrow> exn + string) \<Rightarrow> pyval \<Rightarrow> pyval \<Rightarrow> pyval \<Rightarrow> pyval \<Rightarrow> args
     \<Rightarrow> pyfun" where
  "inputMenu_validationFunc validateChoice choices numbered lettered caseSensitive a =
     (\<lambda>value. validateChoice (inputMenu_call choices numbered lettered caseSensitive a value))"

subsection \<open>Reading a trace\<close>

text \<open>The lines read, the candidates validated and the values handed to the
  post-validation transform, each in the order of the trace.\<close>

fun reads :: "event list \<Rightarrow> string list" where
  "reads [] = []"
| "reads (Read l # tr) = l # reads tr"
| "reads (e # tr) = reads tr"

fun validated :: "event list \<Rightarrow> string list" where
  "validated [] = []"
| "validated (Validate c # tr) = c # validated tr"
| "validated (e # tr) = validated tr"

fun posts :: "event list \<Rightarrow> string list" where
  "posts [] = []"
| "posts (PostApply c # tr) = c # posts tr"
| "posts (e # tr) = posts tr"

definition accepts :: "pyfun \<Rightarrow> string \<Rightarrow> bool" where
  "accepts v c = (case v c of Inl exc \<Rightarrow> False | Inr r \<Rightarrow> True)"

text \<open>
  A monitor for the place of the bound checks in a trace: \<open>k\<close> counts the lines read so
  far and \<open>rej\<close> says that the event just seen was the validation of a candidate that
  was rejected. A bound check is in place when it comes right after such a validation
  and carries the number of lines read, which is then at least one.
\<close>

fun checks_wf :: "pyfun \<Rightarrow> nat \<Rightarrow> bool \<Rightarrow> event list \<Rightarrow> bool" where
  "checks_wf v k rej [] = True"
| "checks_wf v k rej (Check n # tr) = (rej \<and> n = k \<and> 0 < k \<and> checks_wf v k False tr)"
| "checks_wf v k rej (Read l # tr) = checks_wf v (Suc k) False tr"
| "checks_wf v k rej (Validate c # tr) = checks_wf v k (\<not> accepts v c) tr"
| "checks_wf v k rej (e # tr) = checks_wf v k False tr"

text \<open>The trace stops right after a read or right after a bound check.\<close>

definition ends_with_read_or_check :: "event list \<Rightarrow> bool" where
  "ends_with_read_or_check tr =
     (tr \<noteq> [] \<and> (case last tr of Read l \<Rightarrow> True | Check n \<Rightarrow> True | _ \<Rightarrow> False))"

subsection \<open>Concrete inputs\<close>

text \<open>A parameter validation that accepts, a validation that rejects everything, one
  that accepts only \<^verbatim>\<open>42\<close>, a transform, and a clock that advances ten seconds with every
  line read.\<close>

definition params_ok :: "pyval \<Rightarrow> pyval \<Rightarrow> pyval \<Rightarrow> pyval \<Rightarrow> string option" where
  "params_ok b s w l = None"

definition reject_all :: pyfun where
  "reject_all x = Inl (UserException ''invalid'')"

definition only_42 :: pyfun where
  "only_42 x = (if x = ''42'' then Inr [] else Inl (UserException ''not 42''))"

definition exclaim :: pyfun where
  "exclaim x = Inr (x @ ''!'')"

definition clock10 :: "nat \<Rightarrow> real" where
  "clock10 k = 10 * real k"

definition frozen_clock :: "nat \<Rightarrow> real" where
  "frozen_clock k = 0"

definition example_args :: args where
  "example_args =
     \<lparr> prompt = PStr ''> '', default_val = PNone, blank = PBool False, timeout = PNone,
       limit = PNone, strip = PBool True, whitelistRegexes = PNone,
       blacklistRegexes = PNone, applyFunc = PNone, validationFunc = PFunc reject_all,
       postValidateApplyFunc = PNone \<rparr>"

definition limit3_args :: args where
  "limit3_args = example_args \<lparr> limit := PInt 3, timeout := PInt 100 \<rparr>"

definition limit3_config :: config where
  "limit3_config =
     \<lparr> c_prompt = ''> '', c_default = None, c_timeout = Some (NInt 100), c_limit = Some 3,
       c_strip = StripBool True, c_applyFunc = None, c_validationFunc = reject_all,
       c_postValidateApplyFunc = PNone \<rparr>"

definition limit3_timeout1_args :: args where
  "limit3_timeout1_args = example_args \<lparr> limit := PInt 3, timeout := PInt 1 \<rparr>"

definition default9_args :: args where
  "default9_args = example_args \<lparr> default_val := PStr ''9'', limit := PInt 1 \<rparr>"

definition default9_config :: config where
  "default9_config =
     \<lparr> c_prompt = ''> '', c_default = Some ''9'', c_timeout = None, c_limit = Some 1,
       c_strip = StripBool True, c_applyFunc = None, c_validationFunc = reject_all,
       c_postValidateApplyFunc = PNone \<rparr>"

definition timeout15_limit2_args :: args where
  "timeout15_limit2_args = example_args \<lparr> timeout := PInt 15, limit := PInt 2 \<rparr>"

definition timeout15_limit2_config :: config where
  "timeout15_limit2_config =
     \<lparr> c_prompt = ''> '', c_default = None, c_timeout = Some (NInt 15), c_limit = Some 2,
       c_strip = StripBool True, c_applyFunc = None, c_validationFunc = reject_all,
       c_postValidateApplyFunc = PNone \<rparr>"

definition post_args :: args where
  "post_args = example_args \<lparr> validationFunc := PFunc only_42,
                                 postValidateApplyFunc := PFunc exclaim \<rparr>"

definition post_config :: config where
  "post_config =
     \<lparr> c_prompt = ''> '', c_default = None, c_timeout = None, c_limit = None,
       c_strip = StripBool True, c_applyFunc = None, c_validationFunc = only_42,
       c_postValidateApplyFunc = PFunc exclaim \<rparr>"

definition overflow_args :: args where
  "overflow_args =
     example_args \<lparr> default_val := PStr ''9'', timeout := PInt (10 ^ 400), limit := PInt 1 \<rparr>"

definition bad_post_args :: args where
  "bad_post_args = example_args \<lparr> validationFunc := PFunc only_42,
                                     postValidateApplyFunc := PInt 5 \<rparr>"

definition abc_choices :: pyval where
  "abc_choices = PSeq [PStr ''a'', PStr ''b'', PStr ''c'']"

section \<open>Facts about traces, the helper and one pass\<close>

lemmas run_defs = genericInput_def params_ok_def example_args_def checkArgs_def attempt_def
  applyTransform_def checkLimitAndTimeout_def timeoutExpired_def int_too_large_def
  clock10_def frozen_clock_def reject_all_def only_42_def exclaim_def str_strip_def
  isspace_def postValidate_def callFunc_def accepts_def Let_def

lemma checkArgs_Inr:
  assumes "checkArgs a = Inr cfg"
  shows "cfg = \<lparr> c_prompt = the (str_of (prompt a)),
              c_default = str_of (default_val a),
              c_timeout = num_of (timeout a),
              c_limit = int_of (limit a),
              c_strip = strip_of (strip a),
              c_applyFunc = fun_of (applyFunc a),
              c_validationFunc = the (fun_of (validationFunc a)),
              c_postValidateApplyFunc = postValidateApplyFunc a \<rparr>"
  using assms unfolding checkArgs_def by (simp split: if_splits)

lemma checkArgs_fields:
  assumes "checkArgs a = Inr cfg"
  shows "c_postValidateApplyFunc cfg = postValidateApplyFunc a"
    and "c_default cfg = str_of (default_val a)"
    and "c_timeout cfg = num_of (timeout a)"
    and "c_limit cfg = int_of (limit a)"
    and "c_applyFunc cfg = fun_of (applyFunc a)"
    and "c_validationFunc cfg = the (fun_of (validationFunc a))"
  using checkArgs_Inr [OF assms] by simp_all

lemma reads_append: "reads (xs @ ys) = reads xs @ reads ys"
  by (induction xs rule: reads.induct) simp_all

lemma validated_append: "validated (xs @ ys) = validated xs @ validated ys"
  by (induction xs rule: validated.induct) simp_all

lemma posts_append: "posts (xs @ ys) = posts xs @ posts ys"
  by (induction xs rule: posts.induct) simp_all

subsection \<open>The timeout test and the helper\<close>

lemma timeoutExpired_finite:
  "float_of_num t = Inr (Finite x) \<Longrightarrow>
   timeoutExpired startTime (Some t) now = Inr (startTime + x < now)"
  by (simp add: timeoutExpired_def)

lemma timeoutExpired_raises:
  "timeoutExpired startTime tmo now = Inl e \<Longrightarrow>
   e = OverflowError \<and> (\<exists>i. tmo = Some (NInt i) \<and> int_too_large i)"
  by (cases tmo; simp add: timeoutExpired_def split: sum.splits)
     (metis float_of_num.elims sum.distinct(1) sum.inject(1))

lemma check_raises:
  "checkLimitAndTimeout now d startTime tmo tries lmt = Inl e \<Longrightarrow>
   e = OverflowError \<and> (\<exists>i. tmo = Some (NInt i) \<and> int_too_large i)"
  using timeoutExpired_raises [of startTime tmo now]
  by (cases "timeoutExpired startTime tmo now")
     (auto simp: checkLimitAndTimeout_def split: if_splits option.splits)

lemma check_expired:
  "timeoutExpired startTime tmo now = Inr True \<Longrightarrow>
   checkLimitAndTimeout now d startTime tmo tries lmt =
     Inr (case d of Some v \<Rightarrow> UseDefault v | None \<Rightarrow> BoundedFailure TimeoutException)"
  by (simp add: checkLimitAndTimeout_def split: option.splits)

lemma check_unexpired:
  "timeoutExpired startTime tmo now = Inr False \<Longrightarrow>
   checkLimitAndTimeout now d startTime tmo tries lmt =
     Inr (if (case lmt of None \<Rightarrow> False | Some n \<Rightarrow> n \<le> tries)
          then (case d of Some v \<Rightarrow> UseDefault v | None \<Rightarrow> BoundedFailure RetryLimitException)
          else NoBound)"
  by (simp add: checkLimitAndTimeout_def split: option.splits)

lemma bound_reached_gives_default:
  assumes "timeoutExpired startTime tmo now = Inr True \<or>
           (timeoutExpired startTime tmo now = Inr False \<and> lmt = Some n \<and> n \<le> tries)"
  shows "checkLimitAndTimeout now (Some d) startTime tmo tries lmt = Inr (UseDefault d)"
  using assms by (auto simp: check_expired check_unexpired)

lemma check_with_default:
  "(\<exists>e. checkLimitAndTimeout now (Some d) st tmo tries lmt = Inl e) \<or>
   checkLimitAndTimeout now (Some d) st tmo tries lmt = Inr NoBound \<or>
   checkLimitAndTimeout now (Some d) st tmo tries lmt = Inr (UseDefault d)"
  by (cases "timeoutExpired st tmo now")
     (auto simp: checkLimitAndTimeout_def split: option.splits)

lemma check_default_iff:
  "checkLimitAndTimeout now (Some d) st tmo tries lmt = Inr (UseDefault d') \<longleftrightarrow>
   d' = d \<and> (timeoutExpired st tmo now = Inr True \<or>
             (timeoutExpired st tmo now = Inr False \<and> (\<exists>n. lmt = Some n \<and> n \<le> tries)))"
  by (cases "timeoutExpired st tmo now")
     (auto simp: checkLimitAndTimeout_def split: option.splits)

subsection \<open>One pass\<close>

lemma applyTransform_reads: "applyTransform cfg x = (r, evs) \<Longrightarrow> reads evs = []"
  by (auto simp: applyTransform_def split: option.splits)

lemma applyTransform_events:
  "applyTransform cfg x = (r, evs) \<Longrightarrow>
   (evs = [] \<and> r = Inr x \<and> c_applyFunc cfg = None) \<or>
   (\<exists>f. evs = [Apply x] \<and> c_applyFunc cfg = Some f \<and> r = f x)"
  by (auto simp: applyTransform_def split: option.splits)

lemma postValidate_events:
  "postValidate post c = (out, pevs) \<Longrightarrow>
     (pevs = [] \<and> fun_of post = None) \<or>
     (\<exists>g. pevs = [PostApply c] \<and> fun_of post = Some g \<and> out = callFunc g c)"
  by (cases post) (auto simp: postValidate_def)

lemma inputLoop_Done:
  "attempt cfg st (clock (Suc tries)) (Suc tries) l = (Done out, evs) \<Longrightarrow>
   inputLoop cfg clock st tries (l # rest) = (out, Print (c_prompt cfg) # Read l # evs)"
  by simp

lemma inputLoop_Retry:
  "attempt cfg st (clock (Suc tries)) (Suc tries) l = (Retry reason, evs) \<Longrightarrow>
   inputLoop cfg clock st tries (l # rest) =
     (fst (inputLoop cfg clock st (Suc tries) rest),
      Print (c_prompt cfg) # Read l # evs @ Print (reason @ [CHR 0x0A])
        # snd (inputLoop cfg clock st (Suc tries) rest))"
  by (simp split: prod.splits)

lemma inputLoop_nonempty: "snd (inputLoop cfg clock st tries ls) \<noteq> []"
  by (cases ls) (auto split: prod.splits step.splits)

text \<open>
  The shape of a pass: what it returns and the events it leaves, by the way it ends.
\<close>

lemma attempt_cases:
  assumes att: "attempt cfg st now tries line = (s, evs)"
  obtains
    (blank) d where "applyStrip (c_strip cfg) line = []" "c_default cfg = Some d"
      "s = Done (Returned d)" "evs = []"
  | (apply_raised) e aevs where
      "applyTransform cfg (applyStrip (c_strip cfg) line) = (Inl e, aevs)"
      "s = Done (Raised e)" "evs = aevs"
  | (rejected) c aevs exc where
      "applyTransform cfg (applyStrip (c_strip cfg) line) = (Inr c, aevs)"
      "c_validationFunc cfg c = Inl exc"
      "evs = aevs @ [Validate c, Check tries]"
      "s = (case checkLimitAndTimeout now (c_default cfg) st (c_timeout cfg) (int tries)
                   (c_limit cfg) of
              Inl e \<Rightarrow> Done (Raised e)
            | Inr NoBound \<Rightarrow> Retry (exn_text exc)
            | Inr (UseDefault d) \<Rightarrow> Done (Returned d)
            | Inr (BoundedFailure e) \<Rightarrow> Done (Raised e))"
  | (accepted) c aevs r out pevs where
      "applyTransform cfg (applyStrip (c_strip cfg) line) = (Inr c, aevs)"
      "c_validationFunc cfg c = Inr r"
      "postValidate (c_postValidateApplyFunc cfg) c = (out, pevs)"
      "s = Done out" "evs = aevs @ Validate c # pevs"
proof -
  let ?u = "applyStrip (c_strip cfg) line"
  obtain r aevs where at: "applyTransform cfg ?u = (r, aevs)" by (cases "applyTransform cfg ?u")
  show ?thesis
  proof (cases "?u = [] \<and> c_default cfg \<noteq> None")
    case True
    then show ?thesis using att blank by (auto simp: attempt_def Let_def)
  next
    case False
    show ?thesis
    proof (cases r)
      case (Inl e)
      then show ?thesis using att False at apply_raised by (auto simp: attempt_def Let_def)
    next
      case (Inr c)
      show ?thesis
      proof (cases "c_validationFunc cfg c")
        case (Inl exc)
        have "evs = aevs @ [Validate c, Check tries]"
          using att False at Inr Inl
          by (auto simp: attempt_def Let_def split: sum.splits check_result.splits)
        moreover have "s = (case checkLimitAndTimeout now (c_default cfg) st (c_timeout cfg) (int tries)
                   (c_limit cfg) of
              Inl e \<Rightarrow> Done (Raised e)
            | Inr NoBound \<Rightarrow> Retry (exn_text exc)
            | Inr (UseDefault d) \<Rightarrow> Done (Returned d)
            | Inr (BoundedFailure e) \<Rightarrow> Done (Raised e))"
          using att False at Inr Inl
          by (auto simp: attempt_def Let_def split: sum.splits check_result.splits)
        ultimately show ?thesis using rejected at Inr Inl by blast
      next
        case (Inr r')
        obtain out pevs where pv: "postValidate (c_postValidateApplyFunc cfg) c = (out, pevs)"
          by (cases "postValidate (c_postValidateApplyFunc cfg) c")
        have "s = Done out \<and> evs = aevs @ Validate c # pevs"
          using att False at \<open>r = Inr c\<close> Inr pv by (auto simp: attempt_def Let_def)
        then show ?thesis using accepted at \<open>r = Inr c\<close> Inr pv by blast
      qed
    qed
  qed
qed

lemma attempt_no_reads:
  assumes "attempt cfg st now tries line = (s, evs)"
  shows "reads evs = []"
  using assms
proof (cases rule: attempt_cases)
  case (accepted c aevs r out pevs)
  then show ?thesis
    using applyTransform_reads postValidate_events [of "c_postValidateApplyFunc cfg" c out pevs]
    by (auto simp: reads_append)
qed (auto simp: reads_append dest: applyTransform_reads)

lemma attempt_rejecting:
  assumes nodef: "c_default cfg = None"
      and rej: "\<forall>x. \<not> accepts (c_validationFunc cfg) x"
      and app: "\<forall>x. \<exists>y. fst (applyTransform cfg x) = Inr y"
  shows "\<exists>reason evs. reads evs = [] \<and> evs \<noteq> [] \<and> last evs = Check tries \<and>
           attempt cfg st now tries line =
             (case checkLimitAndTimeout now None st (c_timeout cfg) (int tries) (c_limit cfg) of
                Inl e \<Rightarrow> (Done (Raised e), evs)
              | Inr NoBound \<Rightarrow> (Retry reason, evs)
              | Inr (UseDefault d) \<Rightarrow> (Done (Returned d), evs)
              | Inr (BoundedFailure e) \<Rightarrow> (Done (Raised e), evs))"
proof -
  obtain s evs where att: "attempt cfg st now tries line = (s, evs)"
    by (cases "attempt cfg st now tries line")
  have nr: "reads evs = []" using attempt_no_reads [OF att] .
  from att show ?thesis
  proof (cases rule: attempt_cases)
    case (blank d)
    then show ?thesis using nodef by simp
  next
    case (apply_raised e aevs)
    then show ?thesis using app by (metis fst_conv sum.distinct(1))
  next
    case (rejected c aevs exc)
    then show ?thesis using att nr nodef
      by (intro exI [of _ "exn_text exc"] exI [of _ evs])
         (auto split: sum.splits check_result.splits)
  next
    case (accepted c aevs r out pevs)
    have "\<not> accepts (c_validationFunc cfg) c" using rej by simp
    then show ?thesis using accepted(2) by (simp add: accepts_def)
  qed
qed

subsection \<open>Runs of the loop\<close>

lemma loop_retry_limit:
  assumes nodef: "c_default cfg = None"
      and rej: "\<forall>x. \<not> accepts (c_validationFunc cfg) x"
      and app: "\<forall>x. \<exists>y. fst (applyTransform cfg x) = Inr y"
      and lmt: "c_limit cfg = Some L"
  shows "int tries < L \<Longrightarrow> nat L - tries \<le> length ls \<Longrightarrow>
         (\<forall>k. tries < k \<and> int k \<le> L \<longrightarrow>
              timeoutExpired st (c_timeout cfg) (clock k) = Inr False) \<Longrightarrow>
         fst (inputLoop cfg clock st tries ls) = Raised RetryLimitException \<and>
         reads (snd (inputLoop cfg clock st tries ls)) = take (nat L - tries) ls"
proof (induction ls arbitrary: tries)
  case Nil
  then show ?case by simp
next
  case (Cons l rest)
  obtain reason evs where evs: "reads evs = []" "evs \<noteq> []" "last evs = Check (Suc tries)"
    and att: "attempt cfg st (clock (Suc tries)) (Suc tries) l =
      (case checkLimitAndTimeout (clock (Suc tries)) None st (c_timeout cfg) (int (Suc tries)) (c_limit cfg) of
         Inl e \<Rightarrow> (Done (Raised e), evs)
       | Inr NoBound \<Rightarrow> (Retry reason, evs)
       | Inr (UseDefault d) \<Rightarrow> (Done (Returned d), evs)
       | Inr (BoundedFailure e) \<Rightarrow> (Done (Raised e), evs))"
    using attempt_rejecting [OF nodef rej app] by blast
  have nt: "timeoutExpired st (c_timeout cfg) (clock (Suc tries)) = Inr False"
    using Cons.prems(1,3) by auto
  show ?case
  proof (cases "L \<le> int (Suc tries)")
    case True
    then have "checkLimitAndTimeout (clock (Suc tries)) None st (c_timeout cfg) (int (Suc tries)) (c_limit cfg)
                 = Inr (BoundedFailure RetryLimitException)"
      using check_unexpired [OF nt] lmt by simp
    moreover have "nat L - tries = Suc 0" using True Cons.prems(1) by linarith
    ultimately show ?thesis using att evs by (simp add: reads_append)
  next
    case False
    then have nb: "checkLimitAndTimeout (clock (Suc tries)) None st (c_timeout cfg) (int (Suc tries)) (c_limit cfg)
                 = Inr NoBound"
      using check_unexpired [OF nt] lmt by simp
    have ih: "fst (inputLoop cfg clock st (Suc tries) rest) = Raised RetryLimitException \<and>
              reads (snd (inputLoop cfg clock st (Suc tries) rest)) = take (nat L - Suc tries) rest"
    proof (rule Cons.IH)
      show "int (Suc tries) < L" using False by simp
      show "nat L - Suc tries \<le> length rest" using Cons.prems(2) False by simp
      show "\<forall>k. Suc tries < k \<and> int k \<le> L \<longrightarrow>
              timeoutExpired st (c_timeout cfg) (clock k) = Inr False"
        using Cons.prems(3) by auto
    qed
    have "nat L - tries = Suc (nat L - Suc tries)" using False by linarith
    then show ?thesis using att nb evs ih
      by (auto simp: reads_append split: prod.splits)
  qed
qed

lemma loop_timeout:
  assumes nodef: "c_default cfg = None"
      and rej: "\<forall>x. \<not> accepts (c_validationFunc cfg) x"
      and app: "\<forall>x. \<exists>y. fst (applyTransform cfg x) = Inr y"
  shows "k < length ls \<Longrightarrow>
         (\<forall>j. tries < j \<and> j \<le> tries + k \<longrightarrow>
              checkLimitAndTimeout (clock j) None st (c_timeout cfg) (int j) (c_limit cfg) = Inr NoBound) \<Longrightarrow>
         timeoutExpired st (c_timeout cfg) (clock (Suc (tries + k))) = Inr True \<Longrightarrow>
         fst (inputLoop cfg clock st tries ls) = Raised TimeoutException \<and>
         reads (snd (inputLoop cfg clock st tries ls)) = take (Suc k) ls \<and>
         last (snd (inputLoop cfg clock st tries ls)) = Check (Suc (tries + k))"
proof (induction ls arbitrary: tries k)
  case Nil
  then show ?case by simp
next
  case (Cons l rest)
  obtain reason evs where evs: "reads evs = []" "evs \<noteq> []" "last evs = Check (Suc tries)"
    and att: "attempt cfg st (clock (Suc tries)) (Suc tries) l =
      (case checkLimitAndTimeout (clock (Suc tries)) None st (c_timeout cfg) (int (Suc tries)) (c_limit cfg) of
         Inl e \<Rightarrow> (Done (Raised e), evs)
       | Inr NoBound \<Rightarrow> (Retry reason, evs)
       | Inr (UseDefault d) \<Rightarrow> (Done (Returned d), evs)
       | Inr (BoundedFailure e) \<Rightarrow> (Done (Raised e), evs))"
    using attempt_rejecting [OF nodef rej app] by blast
  show ?case
  proof (cases k)
    case 0
    then have "checkLimitAndTimeout (clock (Suc tries)) None st (c_timeout cfg) (int (Suc tries)) (c_limit cfg)
                 = Inr (BoundedFailure TimeoutException)"
      using Cons.prems(3) check_expired [of st "c_timeout cfg" "clock (Suc tries)" None] by simp
    then show ?thesis using att evs 0 by (simp add: reads_append)
  next
    case (Suc k')
    have nb: "checkLimitAndTimeout (clock (Suc tries)) None st (c_timeout cfg) (int (Suc tries)) (c_limit cfg)
                 = Inr NoBound"
      using Cons.prems(2) [rule_format, of "Suc tries"] Suc by simp
    have ih: "fst (inputLoop cfg clock st (Suc tries) rest) = Raised TimeoutException \<and>
         reads (snd (inputLoop cfg clock st (Suc tries) rest)) = take (Suc k') rest \<and>
         last (snd (inputLoop cfg clock st (Suc tries) rest)) = Check (Suc (Suc tries + k'))"
    proof (rule Cons.IH)
      show "k' < length rest" using Cons.prems(1) Suc by simp
      show "\<forall>j. Suc tries < j \<and> j \<le> Suc tries + k' \<longrightarrow>
              checkLimitAndTimeout (clock j) None st (c_timeout cfg) (int j) (c_limit cfg) = Inr NoBound"
        using Cons.prems(2) Suc by auto
      show "timeoutExpired st (c_timeout cfg) (clock (Suc (Suc tries + k'))) = Inr True"
        using Cons.prems(3) Suc by simp
    qed
    then show ?thesis using att nb evs Suc
      by (auto simp: reads_append split: prod.splits)
  qed
qed

lemma attempt_checks_wf:
  assumes att: "attempt cfg st now tries line = (s, evs)" and "0 < tries"
  shows "checks_wf (c_validationFunc cfg) tries False (evs @ tr) =
         checks_wf (c_validationFunc cfg) tries False tr"
  using att
proof (cases rule: attempt_cases)
  case (blank d)
  then show ?thesis by simp
next
  case (apply_raised e aevs)
  then show ?thesis using applyTransform_events [OF apply_raised(1)] by auto
next
  case (rejected c aevs exc)
  then have "\<not> accepts (c_validationFunc cfg) c" by (simp add: accepts_def)
  then show ?thesis using rejected applyTransform_events [OF rejected(1)] assms(2) by auto
next
  case (accepted c aevs r out pevs)
  then have "accepts (c_validationFunc cfg) c" by (simp add: accepts_def)
  then show ?thesis
    using accepted applyTransform_events [OF accepted(1)] postValidate_events [OF accepted(3)]
    by auto
qed

lemma loop_checks_wf:
  "checks_wf (c_validationFunc cfg) tries False (snd (inputLoop cfg clock st tries ls))"
proof (induction ls arbitrary: tries)
  case Nil
  then show ?case by simp
next
  case (Cons l rest)
  obtain s evs where att: "attempt cfg st (clock (Suc tries)) (Suc tries) l = (s, evs)"
    by (cases "attempt cfg st (clock (Suc tries)) (Suc tries) l")
  have wf: "\<And>tr. checks_wf (c_validationFunc cfg) (Suc tries) False (evs @ tr) =
         checks_wf (c_validationFunc cfg) (Suc tries) False tr"
    using attempt_checks_wf [OF att] by simp
  show ?case
  proof (cases s)
    case (Done out)
    then show ?thesis using att wf [of "[]"] by simp
  next
    case (Retry reason)
    then show ?thesis using att wf Cons.IH [of "Suc tries"]
      by (simp add: inputLoop_Retry del: inputLoop.simps)
  qed
qed

lemma attempt_posts:
  assumes att: "attempt cfg st now tries line = (s, evs)"
  shows "(case s of
            Retry reason \<Rightarrow> posts evs = [] \<and> filter (accepts (c_validationFunc cfg)) (validated evs) = []
          | Done out \<Rightarrow>
              (if fun_of (c_postValidateApplyFunc cfg) = None then posts evs = []
               else posts evs = filter (accepts (c_validationFunc cfg)) (validated evs)) \<and>
              length (posts evs) \<le> 1 \<and>
              (\<forall>c g. posts evs = [c] \<and> fun_of (c_postValidateApplyFunc cfg) = Some g
                     \<longrightarrow> out = callFunc g c))"
  using att
proof (cases rule: attempt_cases)
  case (blank d)
  then show ?thesis by simp
next
  case (apply_raised e aevs)
  then show ?thesis using applyTransform_events [OF apply_raised(1)] by auto
next
  case (rejected c aevs exc)
  then have "\<not> accepts (c_validationFunc cfg) c" by (simp add: accepts_def)
  then show ?thesis using rejected applyTransform_events [OF rejected(1)]
    by (auto split: sum.splits check_result.splits)
next
  case (accepted c aevs r out pevs)
  then have "accepts (c_validationFunc cfg) c" by (simp add: accepts_def)
  then show ?thesis
    using accepted applyTransform_events [OF accepted(1)] postValidate_events [OF accepted(3)]
    by auto
qed

lemma loop_posts:
  "(if fun_of (c_postValidateApplyFunc cfg) = None
    then posts (snd (inputLoop cfg clock st tries ls)) = []
    else posts (snd (inputLoop cfg clock st tries ls)) =
         filter (accepts (c_validationFunc cfg)) (validated (snd (inputLoop cfg clock st tries ls)))) \<and>
   length (posts (snd (inputLoop cfg clock st tries ls))) \<le> 1 \<and>
   (\<forall>c g. posts (snd (inputLoop cfg clock st tries ls)) = [c] \<and>
          fun_of (c_postValidateApplyFunc cfg) = Some g
          \<longrightarrow> fst (inputLoop cfg clock st tries ls) = callFunc g c)"
proof (induction ls arbitrary: tries)
  case Nil
  then show ?case by simp
next
  case (Cons l rest)
  obtain s evs where att: "attempt cfg st (clock (Suc tries)) (Suc tries) l = (s, evs)"
    by (cases "attempt cfg st (clock (Suc tries)) (Suc tries) l")
  show ?case
  proof (cases s)
    case (Done out)
    then show ?thesis
      using att attempt_posts [OF att]
      by (simp add: inputLoop_Done del: inputLoop.simps)
  next
    case (Retry reason)
    then show ?thesis using att Cons.IH [of "Suc tries"] attempt_posts [OF att]
      by (simp add: inputLoop_Retry posts_append validated_append del: inputLoop.simps)
  qed
qed

lemma ends_append:
  "tr \<noteq> [] \<Longrightarrow> ends_with_read_or_check (xs @ tr) = ends_with_read_or_check tr"
  by (simp add: ends_with_read_or_check_def)

subsection \<open>Runs with a default\<close>

text \<open>
  A pass whose validation fails while a bound is reached returns the default, when
  line 70 does not raise.
\<close>

lemma attempt_bound_default:
  assumes "c_default cfg = Some d"
      and "applyStrip (c_strip cfg) line \<noteq> []"
      and "applyTransform cfg (applyStrip (c_strip cfg) line) = (Inr c, aevs)"
      and "\<not> accepts (c_validationFunc cfg) c"
      and "timeoutExpired st (c_timeout cfg) now = Inr True \<or>
           (timeoutExpired st (c_timeout cfg) now = Inr False \<and>
            c_limit cfg = Some n \<and> n \<le> int tries)"
  shows "attempt cfg st now tries line =
           (Done (Returned d), aevs @ [Validate c, Check tries])"
proof -
  have u: "checkLimitAndTimeout now (Some d) st (c_timeout cfg) (int tries) (c_limit cfg)
             = Inr (UseDefault d)"
    using bound_reached_gives_default [OF assms(5)] .
  obtain exc where "c_validationFunc cfg c = Inl exc"
    using assms(4) by (cases "c_validationFunc cfg c") (auto simp: accepts_def)
  then show ?thesis using assms(1,2,3) u by (simp add: attempt_def)
qed

lemma attempt_default_no_signal:
  assumes d: "c_default cfg = Some d"
      and att: "attempt cfg st now tries line = (Done (Raised e), evs)"
      and e: "e = TimeoutException \<or> e = RetryLimitException"
  shows "(\<exists>f x. c_applyFunc cfg = Some f \<and> f x = Inl e \<and> evs = [Apply x]) \<or>
         (\<exists>g c pre. fun_of (c_postValidateApplyFunc cfg) = Some g \<and> g c = Inl e \<and>
                    evs = pre @ [Validate c, PostApply c])"
  using att
proof (cases rule: attempt_cases)
  case (blank d')
  then show ?thesis by simp
next
  case (apply_raised e' aevs)
  then show ?thesis using applyTransform_events [OF apply_raised(1)] by auto
next
  case (rejected c aevs exc)
  have "checkLimitAndTimeout now (Some d) st (c_timeout cfg) (int tries) (c_limit cfg) \<noteq> Inl e"
    using check_raises [of now "Some d" st "c_timeout cfg" "int tries" "c_limit cfg" e] e by auto
  then show ?thesis
    using rejected d check_with_default [of now d st "c_timeout cfg" "int tries" "c_limit cfg"]
    by auto
next
  case (accepted c aevs r out pevs)
  then show ?thesis
    using postValidate_events [OF accepted(3)] e
    by (auto simp: callFunc_def postValidate_def split: sum.splits if_splits option.splits)
qed

lemma loop_default_no_signal:
  assumes d: "c_default cfg = Some d"
      and e: "e = TimeoutException \<or> e = RetryLimitException"
      and app: "\<forall>f x. c_applyFunc cfg = Some f \<longrightarrow> f x \<noteq> Inl e"
      and post: "\<forall>g x. fun_of (c_postValidateApplyFunc cfg) = Some g \<longrightarrow> g x \<noteq> Inl e"
  shows "fst (inputLoop cfg clock st tries ls) \<noteq> Raised e"
proof (induction ls arbitrary: tries)
  case Nil
  then show ?case using e by auto
next
  case (Cons l rest)
  obtain s evs where att: "attempt cfg st (clock (Suc tries)) (Suc tries) l = (s, evs)"
    by (cases "attempt cfg st (clock (Suc tries)) (Suc tries) l")
  show ?case
  proof (cases s)
    case (Done out)
    have "out \<noteq> Raised e"
    proof
      assume "out = Raised e"
      then have "attempt cfg st (clock (Suc tries)) (Suc tries) l = (Done (Raised e), evs)"
        using att Done by simp
      from attempt_default_no_signal [OF d this e] show False using app post by blast
    qed
    then show ?thesis using att Done by (simp add: inputLoop_Done del: inputLoop.simps)
  next
    case (Retry reason)
    then show ?thesis using att Cons.IH [of "Suc tries"]
      by (simp add: inputLoop_Retry del: inputLoop.simps)
  qed
qed

text \<open>Runs that stop right after a read or a bound check.\<close>

lemma attempt_default_path:
  assumes d: "c_default cfg = Some d"
      and att: "attempt cfg st now tries line = (Done out, evs)"
      and e: "ends_with_read_or_check (Read line # evs)"
  shows "(out = Returned d \<or>
          (out = Raised OverflowError \<and> (\<exists>i. c_timeout cfg = Some (NInt i) \<and> int_too_large i)))
         \<and> posts evs = []"
  using att
proof (cases rule: attempt_cases)
  case (blank d')
  then show ?thesis using d by simp
next
  case (apply_raised e' aevs)
  then show ?thesis using e applyTransform_events [OF apply_raised(1)]
    by (auto simp: ends_with_read_or_check_def)
next
  case (rejected c aevs exc)
  show ?thesis
  proof (cases "checkLimitAndTimeout now (c_default cfg) st (c_timeout cfg) (int tries) (c_limit cfg)")
    case (Inl e')
    then show ?thesis
      using rejected check_raises [OF Inl] applyTransform_events [OF rejected(1)] by auto
  next
    case (Inr r)
    then show ?thesis
      using rejected d applyTransform_events [OF rejected(1)]
            check_with_default [of now d st "c_timeout cfg" "int tries" "c_limit cfg"]
      by auto
  qed
next
  case (accepted c aevs r out' pevs)
  then show ?thesis using e postValidate_events [OF accepted(3)]
    by (auto simp: ends_with_read_or_check_def)
qed

lemma loop_default_path:
  assumes d: "c_default cfg = Some d"
  shows "ends_with_read_or_check (snd (inputLoop cfg clock st tries ls)) \<Longrightarrow>
         (fst (inputLoop cfg clock st tries ls) = Returned d \<or>
          (fst (inputLoop cfg clock st tries ls) = Raised OverflowError \<and>
           (\<exists>i. c_timeout cfg = Some (NInt i) \<and> int_too_large i))) \<and>
         posts (snd (inputLoop cfg clock st tries ls)) = []"
proof (induction ls arbitrary: tries)
  case Nil
  then show ?case by (simp add: ends_with_read_or_check_def)
next
  case (Cons l rest)
  obtain s evs where att: "attempt cfg st (clock (Suc tries)) (Suc tries) l = (s, evs)"
    by (cases "attempt cfg st (clock (Suc tries)) (Suc tries) l")
  show ?case
  proof (cases s)
    case (Done out)
    have "ends_with_read_or_check (Read l # evs)"
      using Cons.prems att Done
      by (simp add: inputLoop_Done ends_with_read_or_check_def del: inputLoop.simps)
    then show ?thesis
      using attempt_default_path [OF d] att Done
      by (simp add: inputLoop_Done del: inputLoop.simps)
  next
    case (Retry reason)
    let ?tr = "snd (inputLoop cfg clock st (Suc tries) rest)"
    have ne: "?tr \<noteq> []" by (rule inputLoop_nonempty)
    have "ends_with_read_or_check
            ((Print (c_prompt cfg) # Read l # evs @ [Print (reason @ [CHR 0x0A])]) @ ?tr)"
      using Cons.prems att Retry by (simp add: inputLoop_Retry del: inputLoop.simps)
    then have "ends_with_read_or_check ?tr"
      using ends_append [OF ne] by blast
    then have "(fst (inputLoop cfg clock st (Suc tries) rest) = Returned d \<or>
          (fst (inputLoop cfg clock st (Suc tries) rest) = Raised OverflowError \<and>
           (\<exists>i. c_timeout cfg = Some (NInt i) \<and> int_too_large i))) \<and> posts ?tr = []"
      by (rule Cons.IH)
    then show ?thesis
      using att Retry attempt_posts [OF att]
      by (simp add: inputLoop_Retry posts_append del: inputLoop.simps)
  qed
qed

subsection \<open>Where a Timeout comes from\<close>

lemma attempt_timeout_source:
  assumes att: "attempt cfg st now tries line = (Done (Raised TimeoutException), evs)"
  shows "evs \<noteq> [] \<and>
         (last evs = Check tries \<or>
          (\<exists>f x. c_applyFunc cfg = Some f \<and> f x = Inl TimeoutException \<and> last evs = Apply x) \<or>
          (\<exists>g c. fun_of (c_postValidateApplyFunc cfg) = Some g \<and> g c = Inl TimeoutException \<and>
                 last evs = PostApply c))"
  using att
proof (cases rule: attempt_cases)
  case (blank d')
  then show ?thesis by simp
next
  case (apply_raised e' aevs)
  then show ?thesis using applyTransform_events [OF apply_raised(1)] by auto
next
  case (rejected c aevs exc)
  then show ?thesis by simp
next
  case (accepted c aevs r out pevs)
  then show ?thesis
    using postValidate_events [OF accepted(3)]
    by (auto simp: callFunc_def postValidate_def split: sum.splits if_splits option.splits)
qed

lemma loop_timeout_source:
  "fst (inputLoop cfg clock st tries ls) = Raised TimeoutException \<Longrightarrow>
   0 < length (reads (snd (inputLoop cfg clock st tries ls))) \<and>
   (last (snd (inputLoop cfg clock st tries ls)) =
      Check (tries + length (reads (snd (inputLoop cfg clock st tries ls)))) \<or>
    (\<exists>f x. c_applyFunc cfg = Some f \<and> f x = Inl TimeoutException \<and>
           last (snd (inputLoop cfg clock st tries ls)) = Apply x) \<or>
    (\<exists>g c. fun_of (c_postValidateApplyFunc cfg) = Some g \<and> g c = Inl TimeoutException \<and>
           last (snd (inputLoop cfg clock st tries ls)) = PostApply c))"
proof (induction ls arbitrary: tries)
  case Nil
  then show ?case by simp
next
  case (Cons l rest)
  obtain s evs where att: "attempt cfg st (clock (Suc tries)) (Suc tries) l = (s, evs)"
    by (cases "attempt cfg st (clock (Suc tries)) (Suc tries) l")
  have nr: "reads evs = []" using attempt_no_reads [OF att] .
  show ?case
  proof (cases s)
    case (Done out)
    then have "out = Raised TimeoutException"
      using Cons.prems att by (simp add: inputLoop_Done del: inputLoop.simps)
    then have a: "attempt cfg st (clock (Suc tries)) (Suc tries) l = (Done (Raised TimeoutException), evs)"
      using att Done by simp
    show ?thesis
      using a nr attempt_timeout_source [OF a]
      by (simp add: inputLoop_Done del: inputLoop.simps)
  next
    case (Retry reason)
    let ?tr = "snd (inputLoop cfg clock st (Suc tries) rest)"
    have ne: "?tr \<noteq> []" by (rule inputLoop_nonempty)
    have "fst (inputLoop cfg clock st (Suc tries) rest) = Raised TimeoutException"
      using Cons.prems att Retry by (simp add: inputLoop_Retry del: inputLoop.simps)
    from Cons.IH [OF this] show ?thesis
      using att Retry nr ne
      by (simp add: inputLoop_Retry reads_append del: inputLoop.simps)
  qed
qed

lemma config_error_before_io:
  "checkArgs a = Inl e \<Longrightarrow>
   snd (genericInput validateGenericParameters clock stdin a) = [] \<and>
   (\<exists>e'. fst (genericInput validateGenericParameters clock stdin a) = Raised e')"
  by (simp add: genericInput_def split: option.splits)

section \<open>The bound-check helper\<close>

text \<open>
  Claim C2. In the helper the timeout is tested before the attempt limit: when the
  timeout has expired and \<open>tries \<ge> limit\<close> and there is no default, the result is the
  Timeout signal and not the RetryLimit signal. The timeout has expired when it is a
  number of seconds \<open>t\<close> with \<open>startTime + t < time.time()\<close>, or minus infinity.
\<close>

theorem timeout_checked_before_limit:
  "(float_of_num tmo = Inr (Finite t) \<and> startTime + t < time_time) \<or> tmo = NFloat NegInf \<Longrightarrow>
   n \<le> tries \<Longrightarrow>
   checkLimitAndTimeout time_time None startTime (Some tmo) tries (Some n)
     = Inr (BoundedFailure TimeoutException) \<and>
   checkLimitAndTimeout time_time None startTime (Some tmo) tries (Some n)
     \<noteq> Inr (BoundedFailure RetryLimitException)"
  by (auto simp: checkLimitAndTimeout_def timeoutExpired_def)

theorem timeout_checked_before_limit_witness:
  "float_of_num (NInt 5) = Inr (Finite 5) \<and> (0::real) + 5 < 10 \<and> (3::int) \<le> 3 \<and>
   checkLimitAndTimeout 10 None 0 (Some (NInt 5)) 3 (Some 3) = Inr (BoundedFailure TimeoutException)"
proof -
  have f: "float_of_num (NInt 5) = Inr (Finite 5)"
    by (simp add: int_too_large_def)
  show ?thesis
    using timeout_checked_before_limit [where tmo = "NInt 5" and t = 5 and startTime = 0
            and time_time = 10 and n = 3 and tries = 3] f
    by simp
qed

text \<open>
  Claim C6, as stated: the helper is a function of its five arguments alone, the clock
  being supplied by the caller. The source calls \<^verbatim>\<open>time.time()\<close> inside the helper
  (line 70), so two calls with the same five arguments, made at different times, can
  differ: with a timeout of 5 seconds from time 0 and no limit, a call at time 1 reports
  no bound and a call at time 10 reports the Timeout signal.
\<close>

theorem check_result_changes_with_clock:
  "checkLimitAndTimeout 1 None 0 (Some (NInt 5)) 1 None \<noteq>
   checkLimitAndTimeout 10 None 0 (Some (NInt 5)) 1 None"
  by (simp add: checkLimitAndTimeout_def timeoutExpired_def int_too_large_def)

text \<open>
  Claim C6, amended. The helper changes nothing and its result is determined by its five
  arguments together with the clock reading it takes itself; the reading matters only
  through the test \<open>startTime + timeout < time.time()\<close>. Two calls with the same
  arguments agree whenever the timeout is not a finite number of seconds (it is absent,
  infinite, not a number, or too large to convert) or their readings fall on the same
  side of \<open>startTime + timeout\<close>.
\<close>

theorem check_depends_on_clock_through_timeout_only:
  "(case tmo of
      None \<Rightarrow> True
    | Some tm \<Rightarrow>
        (case float_of_num tm of
           Inr (Finite t) \<Rightarrow> (startTime + t < now) = (startTime + t < now')
         | _ \<Rightarrow> True)) \<Longrightarrow>
   checkLimitAndTimeout now d startTime tmo tries lmt =
   checkLimitAndTimeout now' d startTime tmo tries lmt"
  by (auto simp: checkLimitAndTimeout_def timeoutExpired_def
           split: option.splits sum.splits pyfloat.splits)

theorem check_depends_on_clock_through_timeout_only_witness:
  "float_of_num (NInt 5) = Inr (Finite 5) \<and>
   ((0::real) + 5 < 6) = ((0::real) + 5 < 10) \<and>
   checkLimitAndTimeout 6 None 0 (Some (NInt 5)) 1 (Some 3) =
   checkLimitAndTimeout 10 None 0 (Some (NInt 5)) 1 (Some 3)"
proof -
  have f: "float_of_num (NInt 5) = Inr (Finite 5)"
    by (simp add: int_too_large_def)
  show ?thesis
    using check_depends_on_clock_through_timeout_only
            [where tmo = "Some (NInt 5)" and startTime = 0 and now = 6 and now' = 10
               and d = None and tries = 1 and lmt = "Some 3"] f
    by simp
qed

section \<open>The attempt limit\<close>

text \<open>
  Claim C1, as stated: with \<open>limit = N\<close>, no default and a validation that rejects
  everything, the loop reads exactly \<open>N\<close> lines and raises RetryLimit. A configuration
  of that kind may also set a timeout, and the helper tests the timeout first: with
  \<open>limit = 3\<close>, \<open>timeout = 1\<close> and a first line entered after ten seconds, the loop
  raises Timeout after one read.
\<close>

theorem timeout_preempts_retry_limit:
  "fst (genericInput params_ok clock10 [''a'', ''b'', ''c''] limit3_timeout1_args)
     = Raised TimeoutException \<and>
   reads (snd (genericInput params_ok clock10 [''a'', ''b'', ''c''] limit3_timeout1_args)) = [''a'']"
  by (simp add: run_defs limit3_timeout1_args_def)

text \<open>
  Claim C1, amended. With \<open>limit = N\<close>, \<open>N \<ge> 1\<close>, no default, a validation that rejects
  every candidate, a pre-validation transform that returns normally, a timeout test
  (line 70) that is false at each of the first \<open>N\<close> bound checks, whether because no
  timeout is set or because the one set has not expired, and at least \<open>N\<close> lines of
  input, the loop reads exactly the first \<open>N\<close> lines and then raises RetryLimit.
  Whenever the timeout test is false the helper reports RetryLimit exactly when
  \<open>tries \<ge> limit\<close>. The test is false when no timeout is set, and for a timeout of
  \<open>t\<close> seconds it is \<open>startTime + t < time.time()\<close>.
\<close>

theorem retry_limit_after_exactly_N_reads:
  assumes "validateGenericParameters (blank a) (strip a) (whitelistRegexes a) (blacklistRegexes a) = None"
      and "checkArgs a = Inr cfg"
      and "c_default cfg = None"
      and "c_limit cfg = Some (int N)"
      and "1 \<le> N"
      and "\<forall>x. \<not> accepts (c_validationFunc cfg) x"
      and "\<forall>x. \<exists>y. fst (applyTransform cfg x) = Inr y"
      and "\<forall>k. 1 \<le> k \<and> k \<le> N \<longrightarrow>
             timeoutExpired (clock 0) (c_timeout cfg) (clock k) = Inr False"
      and "N \<le> length stdin"
  shows "fst (genericInput validateGenericParameters clock stdin a) = Raised RetryLimitException \<and>
         reads (snd (genericInput validateGenericParameters clock stdin a)) = take N stdin \<and>
         (timeoutExpired st tmo now = Inr False \<longrightarrow>
            checkLimitAndTimeout now None st tmo tries (Some n) =
              Inr (if n \<le> tries then BoundedFailure RetryLimitException else NoBound)) \<and>
         timeoutExpired st None now = Inr False \<and>
         (float_of_num tm = Inr (Finite t) \<longrightarrow>
            timeoutExpired st (Some tm) now = Inr (st + t < now))"
proof -
  have "\<forall>k. 0 < k \<and> int k \<le> int N \<longrightarrow>
          timeoutExpired (clock 0) (c_timeout cfg) (clock k) = Inr False"
    using assms(8) by auto
  then have "fst (inputLoop cfg clock (clock 0) 0 stdin) = Raised RetryLimitException \<and>
        reads (snd (inputLoop cfg clock (clock 0) 0 stdin)) = take (nat (int N) - 0) stdin"
    using assms(5,9)
    by (intro loop_retry_limit [OF assms(3) assms(6) assms(7) assms(4)]) auto
  then show ?thesis
    using assms(1,2)
    by (simp add: genericInput_def check_unexpired timeoutExpired_finite)
       (simp add: timeoutExpired_def)
qed

theorem retry_limit_after_exactly_N_reads_witness:
  "checkArgs limit3_args = Inr limit3_config \<and>
   c_timeout limit3_config = Some (NInt 100) \<and>
   timeoutExpired (clock10 0) (Some (NInt 100)) (clock10 3) = Inr False \<and>
   fst (genericInput params_ok clock10 [''a'', ''b'', ''c'', ''d''] limit3_args)
     = Raised RetryLimitException \<and>
   reads (snd (genericInput params_ok clock10 [''a'', ''b'', ''c'', ''d''] limit3_args))
     = [''a'', ''b'', ''c''] \<and>
   checkLimitAndTimeout (clock10 3) None (clock10 0) (Some (NInt 100)) 3 (Some 3) =
     Inr (BoundedFailure RetryLimitException)"
proof -
  have c: "checkArgs limit3_args = Inr limit3_config"
    by (simp add: checkArgs_def limit3_args_def limit3_config_def example_args_def)
  have t: "c_timeout limit3_config = Some (NInt 100)"
    by (simp add: limit3_config_def)
  have u: "\<forall>k. 1 \<le> k \<and> k \<le> 3 \<longrightarrow>
             timeoutExpired (clock10 0) (c_timeout limit3_config) (clock10 k) = Inr False"
    by (auto simp: t timeoutExpired_def int_too_large_def clock10_def)
  have u3: "timeoutExpired (clock10 0) (Some (NInt 100)) (clock10 3) = Inr False"
    using u t by simp
  have "fst (genericInput params_ok clock10 [''a'', ''b'', ''c'', ''d''] limit3_args)
          = Raised RetryLimitException \<and>
        reads (snd (genericInput params_ok clock10 [''a'', ''b'', ''c'', ''d''] limit3_args))
          = take 3 [''a'', ''b'', ''c'', ''d''] \<and>
        (timeoutExpired (clock10 0) (Some (NInt 100)) (clock10 3) = Inr False \<longrightarrow>
            checkLimitAndTimeout (clock10 3) None (clock10 0) (Some (NInt 100)) 3 (Some 3) =
              Inr (if (3::int) \<le> 3 then BoundedFailure RetryLimitException else NoBound)) \<and>
        timeoutExpired (clock10 0) None (clock10 3) = Inr False \<and>
        (float_of_num (NInt 100) = Inr (Finite 100) \<longrightarrow>
            timeoutExpired (clock10 0) (Some (NInt 100)) (clock10 3) =
              Inr (clock10 0 + 100 < clock10 3))"
    by (rule retry_limit_after_exactly_N_reads [OF _ c _ _ _ _ _ u])
       (simp_all add: params_ok_def limit3_config_def accepts_def reject_all_def applyTransform_def)
  then show ?thesis using c t u3 by (simp add: numeral_3_eq_3)
qed

section \<open>The default\<close>

text \<open>
  Claim C3. With a default set, a line that is empty after stripping makes the loop
  return the default in that very pass: the pass consists of the prompt and one read,
  with no call of the pre-validation transform and no call of the validation. This holds
  at every pass of the loop, and so for the first line of a call of the whole function.
\<close>

theorem blank_input_returns_default:
  assumes "c_default cfg = Some d"
      and "applyStrip (c_strip cfg) line = []"
  shows "inputLoop cfg clock st tries (line # rest) =
           (Returned d, [Print (c_prompt cfg), Read line]) \<and>
         (validateGenericParameters (blank a) (strip a) (whitelistRegexes a) (blacklistRegexes a) = None
          \<and> checkArgs a = Inr cfg \<longrightarrow>
          genericInput validateGenericParameters clock (line # rest) a =
            (Returned d, [Print (c_prompt cfg), Read line]))"
  using assms by (simp add: genericInput_def attempt_def)

theorem blank_input_returns_default_witness:
  "c_default default9_config = Some ''9'' \<and>
   applyStrip (c_strip default9_config) ''  '' = [] \<and>
   checkArgs default9_args = Inr default9_config \<and>
   genericInput params_ok frozen_clock [''  '', ''x''] default9_args =
     (Returned ''9'', [Print ''> '', Read ''  ''])"
proof -
  have d: "c_default default9_config = Some ''9''"
    by (simp add: default9_config_def)
  have s: "applyStrip (c_strip default9_config) ''  '' = []"
    by (simp add: default9_config_def str_strip_def isspace_def)
  have c: "checkArgs default9_args = Inr default9_config"
    by (simp add: checkArgs_def default9_args_def default9_config_def example_args_def)
  have p: "c_prompt default9_config = ''> ''"
    by (simp add: default9_config_def)
  show ?thesis
    using blank_input_returns_default [OF d s, where clock = frozen_clock and st = 0
            and tries = 0 and rest = "[''x'']" and validateGenericParameters = params_ok
            and a = default9_args] d s c p
    by (simp add: params_ok_def)
qed

text \<open>
  Claim C4. With a default set, a bound reached on a failed attempt should give the
  default. It does not for a timeout that is an \<open>int\<close> too large for a \<open>float\<close>, which
  line 118 accepts: with the default \<^verbatim>\<open>9\<close>, \<open>timeout = 10^400\<close> and \<open>limit = 1\<close> the first
  rejected line reaches the attempt limit, but the sum of line 70 raises
  \<open>OverflowError\<close> before line 76 is tried, and the call ends with that exception.
\<close>

theorem default_lost_to_overflow:
  "str_of (default_val overflow_args) = Some ''9'' \<and>
   int_of (limit overflow_args) = Some 1 \<and>
   \<not> accepts reject_all ''a'' \<and>
   genericInput params_ok frozen_clock [''a''] overflow_args =
     (Raised OverflowError, [Print ''> '', Read ''a'', Validate ''a'', Check 1])"
  by (simp add: run_defs overflow_args_def)

text \<open>
  Where line 70 does not raise, the default does take the place of both signals: the
  helper answers with the default when the timeout test is true, or false with
  \<open>tries \<ge> limit\<close>; a pass whose validation fails in such a state returns the default;
  and a run can end in the Timeout or the RetryLimit exception only when a transform
  supplied by the caller raises it.
\<close>

lemma default_absorbs_bounds_without_overflow:
  assumes "c_default cfg = Some d"
  shows "(timeoutExpired st tmo now = Inr True \<or>
          (timeoutExpired st tmo now = Inr False \<and> lmt = Some n \<and> n \<le> k)
          \<longrightarrow> checkLimitAndTimeout now (Some d) st tmo k lmt = Inr (UseDefault d)) \<and>
         (applyTransform cfg (applyStrip (c_strip cfg) line) = (Inr c, aevs) \<and>
          \<not> accepts (c_validationFunc cfg) c \<and>
          (timeoutExpired st (c_timeout cfg) (clock (Suc tries)) = Inr True \<or>
           (timeoutExpired st (c_timeout cfg) (clock (Suc tries)) = Inr False \<and>
            c_limit cfg = Some m \<and> m \<le> int (Suc tries)))
          \<longrightarrow> fst (inputLoop cfg clock st tries (line # rest)) = Returned d) \<and>
         ((e = TimeoutException \<or> e = RetryLimitException) \<and>
          (\<forall>f x. c_applyFunc cfg = Some f \<longrightarrow> f x \<noteq> Inl e) \<and>
          (\<forall>g x. fun_of (c_postValidateApplyFunc cfg) = Some g \<longrightarrow> g x \<noteq> Inl e)
          \<longrightarrow> fst (inputLoop cfg clock st tries stdin) \<noteq> Raised e)"
proof -
  have h: "timeoutExpired st tmo now = Inr True \<or>
          (timeoutExpired st tmo now = Inr False \<and> lmt = Some n \<and> n \<le> k)
          \<Longrightarrow> checkLimitAndTimeout now (Some d) st tmo k lmt = Inr (UseDefault d)"
    by (rule bound_reached_gives_default)
  have p: "fst (inputLoop cfg clock st tries (line # rest)) = Returned d"
    if t: "applyTransform cfg (applyStrip (c_strip cfg) line) = (Inr c, aevs)"
      and r: "\<not> accepts (c_validationFunc cfg) c"
      and b: "timeoutExpired st (c_timeout cfg) (clock (Suc tries)) = Inr True \<or>
           (timeoutExpired st (c_timeout cfg) (clock (Suc tries)) = Inr False \<and>
            c_limit cfg = Some m \<and> m \<le> int (Suc tries))"
  proof (cases "applyStrip (c_strip cfg) line = []")
    case True
    then show ?thesis using assms by (simp add: attempt_def)
  next
    case False
    show ?thesis
      using attempt_bound_default [OF assms False t r b]
      by (simp del: inputLoop.simps add: inputLoop_Done)
  qed
  have w: "fst (inputLoop cfg clock st tries stdin) \<noteq> Raised e"
    if "e = TimeoutException \<or> e = RetryLimitException"
      and "\<forall>f x. c_applyFunc cfg = Some f \<longrightarrow> f x \<noteq> Inl e"
      and "\<forall>g x. fun_of (c_postValidateApplyFunc cfg) = Some g \<longrightarrow> g x \<noteq> Inl e"
    using loop_default_no_signal [OF assms that] .
  show ?thesis using h p w by blast
qed

text \<open>
  Claim C10. The default is returned as configured. A pass that returns it on blank
  input has read the line and done nothing else; a pass that returns it at a bound has
  applied the transform and the validation to the text the user entered and made the
  bound check, and nothing more. Any run that stops right after a read or right after a
  bound check returns exactly the default, unless line 70 raised \<open>OverflowError\<close> for a
  timeout too large to convert, and no post-validation transform was called in it.
\<close>

theorem default_returned_untouched:
  assumes "c_default cfg = Some d"
  shows "(applyStrip (c_strip cfg) line = [] \<longrightarrow>
            inputLoop cfg clock st tries (line # rest) =
              (Returned d, [Print (c_prompt cfg), Read line])) \<and>
         (applyStrip (c_strip cfg) line \<noteq> [] \<and>
          applyTransform cfg (applyStrip (c_strip cfg) line) = (Inr c, aevs) \<and>
          \<not> accepts (c_validationFunc cfg) c \<and>
          (timeoutExpired st (c_timeout cfg) (clock (Suc tries)) = Inr True \<or>
           (timeoutExpired st (c_timeout cfg) (clock (Suc tries)) = Inr False \<and>
            c_limit cfg = Some n \<and> n \<le> int (Suc tries)))
          \<longrightarrow> inputLoop cfg clock st tries (line # rest) =
                (Returned d,
                 Print (c_prompt cfg) # Read line # aevs @ [Validate c, Check (Suc tries)])) \<and>
         (ends_with_read_or_check (snd (inputLoop cfg clock st tries stdin)) \<longrightarrow>
            (fst (inputLoop cfg clock st tries stdin) = Returned d \<or>
             (fst (inputLoop cfg clock st tries stdin) = Raised OverflowError \<and>
              (\<exists>i. c_timeout cfg = Some (NInt i) \<and> int_too_large i))) \<and>
            posts (snd (inputLoop cfg clock st tries stdin)) = [])"
proof -
  have blank_path: "applyStrip (c_strip cfg) line = [] \<Longrightarrow>
            inputLoop cfg clock st tries (line # rest) =
              (Returned d, [Print (c_prompt cfg), Read line])"
    using assms by (simp add: attempt_def)
  have bound_path: "inputLoop cfg clock st tries (line # rest) =
                (Returned d,
                 Print (c_prompt cfg) # Read line # aevs @ [Validate c, Check (Suc tries)])"
    if ne: "applyStrip (c_strip cfg) line \<noteq> []"
      and t: "applyTransform cfg (applyStrip (c_strip cfg) line) = (Inr c, aevs)"
      and r: "\<not> accepts (c_validationFunc cfg) c"
      and b: "timeoutExpired st (c_timeout cfg) (clock (Suc tries)) = Inr True \<or>
           (timeoutExpired st (c_timeout cfg) (clock (Suc tries)) = Inr False \<and>
            c_limit cfg = Some n \<and> n \<le> int (Suc tries))"
    using attempt_bound_default [OF assms ne t r b]
    by (simp del: inputLoop.simps add: inputLoop_Done)
  show ?thesis
    using blank_path bound_path loop_default_path [OF assms, of clock st tries stdin] by blast
qed

theorem default_returned_untouched_witness:
  "c_default default9_config = Some ''9'' \<and>
   inputLoop default9_config frozen_clock 0 0 [''  '', ''b''] =
     (Returned ''9'', [Print ''> '', Read ''  '']) \<and>
   inputLoop default9_config frozen_clock 0 0 [''a'', ''b''] =
     (Returned ''9'', [Print ''> '', Read ''a'', Validate ''a'', Check 1]) \<and>
   ends_with_read_or_check [Print ''> '', Read ''a'', Validate ''a'', Check 1] \<and>
   posts (snd (inputLoop default9_config frozen_clock 0 0 [''a'', ''b''])) = []"
proof -
  have d: "c_default default9_config = Some ''9''"
    by (simp add: default9_config_def)
  have s: "applyStrip (c_strip default9_config) ''  '' = []"
    by (simp add: default9_config_def str_strip_def isspace_def)
  have t: "applyStrip (c_strip default9_config) ''a'' \<noteq> [] \<and>
           applyTransform default9_config (applyStrip (c_strip default9_config) ''a'') = (Inr ''a'', [])"
    by (simp add: default9_config_def applyTransform_def str_strip_def isspace_def)
  have r: "\<not> accepts (c_validationFunc default9_config) ''a''"
    by (simp add: default9_config_def accepts_def reject_all_def)
  have b: "timeoutExpired 0 (c_timeout default9_config) (frozen_clock (Suc 0)) = Inr False \<and>
           c_limit default9_config = Some 1 \<and> (1::int) \<le> int (Suc 0)"
    by (simp add: default9_config_def timeoutExpired_def)
  have p: "c_prompt default9_config = ''> ''"
    by (simp add: default9_config_def)
  have blank_run: "inputLoop default9_config frozen_clock 0 0 [''  '', ''b''] =
     (Returned ''9'', [Print ''> '', Read ''  ''])"
    using default_returned_untouched [OF d, where line = "''  ''" and clock = frozen_clock
            and st = 0 and tries = 0 and rest = "[''b'']" and stdin = "[]"] s p
    by simp
  have bound_run: "inputLoop default9_config frozen_clock 0 0 [''a'', ''b''] =
     (Returned ''9'', [Print ''> '', Read ''a'', Validate ''a'', Check 1])"
    using default_returned_untouched [OF d, where line = "''a''" and clock = frozen_clock
            and st = 0 and tries = 0 and rest = "[''b'']" and c = "''a''" and aevs = "[]"
            and stdin = "[]" and n = 1] t r b p
    by simp
  have e: "ends_with_read_or_check [Print ''> '', Read ''a'', Validate ''a'', Check 1]"
    by (simp add: ends_with_read_or_check_def)
  then have "ends_with_read_or_check (snd (inputLoop default9_config frozen_clock 0 0 [''a'', ''b'']))"
    by (simp only: bound_run snd_conv)
  then have "posts (snd (inputLoop default9_config frozen_clock 0 0 [''a'', ''b''])) = []"
    using default_returned_untouched [OF d, where clock = frozen_clock and st = 0 and tries = 0
            and stdin = "[''a'', ''b'']" and line = "[]" and rest = "[]"]
    by blast
  then show ?thesis using d blank_run bound_run e by simp
qed

section \<open>The timeout\<close>

text \<open>
  Claim C5. In every run each bound check, and with it the timeout test, comes right
  after a validation that rejected its candidate, and carries the number of lines read
  so far, at least one. A run that ends in the Timeout exception has read at least one
  line and ends with such a check, or with the call of a caller's transform that raised
  the exception itself; so the signal never comes while a read is pending. With a
  timeout of \<open>T\<close> seconds, no default, a validation that rejects everything and a
  transform that returns normally: if the first \<open>k\<close> failed attempts reach no bound and
  at attempt \<open>k + 1\<close> the clock is past \<open>startTime + T\<close>, the run raises Timeout right
  after the check of attempt \<open>k + 1\<close>, having read \<open>k + 1\<close> lines, whatever the limit
  is.
\<close>

theorem timeout_raised_at_first_late_failure:
  assumes "checkArgs a = Inr cfg"
  shows "checks_wf (c_validationFunc cfg) 0 False
           (snd (genericInput validateGenericParameters clock stdin a)) \<and>
         (fst (genericInput validateGenericParameters clock stdin a) = Raised TimeoutException \<longrightarrow>
            0 < length (reads (snd (genericInput validateGenericParameters clock stdin a))) \<and>
            (last (snd (genericInput validateGenericParameters clock stdin a)) =
               Check (length (reads (snd (genericInput validateGenericParameters clock stdin a)))) \<or>
             (\<exists>f x. c_applyFunc cfg = Some f \<and> f x = Inl TimeoutException \<and>
                  last (snd (genericInput validateGenericParameters clock stdin a)) = Apply x) \<or>
             (\<exists>g c. fun_of (c_postValidateApplyFunc cfg) = Some g \<and> g c = Inl TimeoutException \<and>
                  last (snd (genericInput validateGenericParameters clock stdin a)) = PostApply c))) \<and>
         (validateGenericParameters (blank a) (strip a) (whitelistRegexes a) (blacklistRegexes a) = None \<and>
          c_default cfg = None \<and> c_timeout cfg = Some tmo \<and> float_of_num tmo = Inr (Finite T) \<and>
          (\<forall>x. \<not> accepts (c_validationFunc cfg) x) \<and>
          (\<forall>x. \<exists>y. fst (applyTransform cfg x) = Inr y) \<and>
          k < length stdin \<and>
          (\<forall>j. 1 \<le> j \<and> j \<le> k \<longrightarrow>
               checkLimitAndTimeout (clock j) None (clock 0) (Some tmo) (int j) (c_limit cfg)
                 = Inr NoBound) \<and>
          clock 0 + T < clock (Suc k)
          \<longrightarrow>
          fst (genericInput validateGenericParameters clock stdin a) = Raised TimeoutException \<and>
          reads (snd (genericInput validateGenericParameters clock stdin a)) = take (Suc k) stdin \<and>
          last (snd (genericInput validateGenericParameters clock stdin a)) = Check (Suc k))"
proof -
  let ?run = "genericInput validateGenericParameters clock stdin a"
  have wf: "checks_wf (c_validationFunc cfg) 0 False (snd ?run)"
    using assms loop_checks_wf [of cfg 0 clock "clock 0" stdin]
    by (simp add: genericInput_def split: option.splits)
  have source: "0 < length (reads (snd ?run)) \<and>
            (last (snd ?run) = Check (length (reads (snd ?run))) \<or>
             (\<exists>f x. c_applyFunc cfg = Some f \<and> f x = Inl TimeoutException \<and>
                  last (snd ?run) = Apply x) \<or>
             (\<exists>g c. fun_of (c_postValidateApplyFunc cfg) = Some g \<and> g c = Inl TimeoutException \<and>
                  last (snd ?run) = PostApply c))"
    if "fst ?run = Raised TimeoutException"
  proof (cases "validateGenericParameters (blank a) (strip a) (whitelistRegexes a) (blacklistRegexes a)")
    case (Some msg)
    then show ?thesis using that by (simp add: genericInput_def)
  next
    case None
    then have eq: "?run = inputLoop cfg clock (clock 0) 0 stdin"
      using assms by (simp add: genericInput_def)
    show ?thesis
      using that loop_timeout_source [of cfg clock "clock 0" 0 stdin]
      unfolding eq by simp
  qed
  have late: "fst ?run = Raised TimeoutException \<and>
          reads (snd ?run) = take (Suc k) stdin \<and>
          last (snd ?run) = Check (Suc k)"
    if v: "validateGenericParameters (blank a) (strip a) (whitelistRegexes a) (blacklistRegexes a) = None"
      and nodef: "c_default cfg = None" and tmo: "c_timeout cfg = Some tmo"
      and fin: "float_of_num tmo = Inr (Finite T)"
      and rej: "\<forall>x. \<not> accepts (c_validationFunc cfg) x"
      and app: "\<forall>x. \<exists>y. fst (applyTransform cfg x) = Inr y"
      and len: "k < length stdin"
      and early: "\<forall>j. 1 \<le> j \<and> j \<le> k \<longrightarrow>
               checkLimitAndTimeout (clock j) None (clock 0) (Some tmo) (int j) (c_limit cfg)
                 = Inr NoBound"
      and lt: "clock 0 + T < clock (Suc k)"
  proof -
    have e: "\<forall>j. 0 < j \<and> j \<le> 0 + k \<longrightarrow>
               checkLimitAndTimeout (clock j) None (clock 0) (c_timeout cfg) (int j) (c_limit cfg)
                 = Inr NoBound"
      using early tmo by auto
    have x: "timeoutExpired (clock 0) (c_timeout cfg) (clock (Suc (0 + k))) = Inr True"
      using timeoutExpired_finite [OF fin, of "clock 0" "clock (Suc k)"] lt tmo by simp
    have "fst (inputLoop cfg clock (clock 0) 0 stdin) = Raised TimeoutException \<and>
          reads (snd (inputLoop cfg clock (clock 0) 0 stdin)) = take (Suc k) stdin \<and>
          last (snd (inputLoop cfg clock (clock 0) 0 stdin)) = Check (Suc (0 + k))"
      using loop_timeout [OF nodef rej app len e x] .
    then show ?thesis using v assms by (simp add: genericInput_def)
  qed
  show ?thesis using wf source late by blast
qed

theorem timeout_raised_at_first_late_failure_witness:
  "checkArgs timeout15_limit2_args = Inr timeout15_limit2_config \<and>
   float_of_num (NInt 15) = Inr (Finite 15) \<and>
   checkLimitAndTimeout (clock10 1) None (clock10 0) (Some (NInt 15)) 1 (Some 2) = Inr NoBound \<and>
   clock10 0 + 15 < clock10 2 \<and>
   fst (genericInput params_ok clock10 [''a'', ''b'', ''c''] timeout15_limit2_args)
     = Raised TimeoutException \<and>
   reads (snd (genericInput params_ok clock10 [''a'', ''b'', ''c''] timeout15_limit2_args))
     = [''a'', ''b''] \<and>
   last (snd (genericInput params_ok clock10 [''a'', ''b'', ''c''] timeout15_limit2_args))
     = Check 2 \<and>
   checks_wf reject_all 0 False
     (snd (genericInput params_ok clock10 [''a'', ''b'', ''c''] timeout15_limit2_args))"
proof -
  have c: "checkArgs timeout15_limit2_args = Inr timeout15_limit2_config"
    by (simp add: checkArgs_def timeout15_limit2_args_def timeout15_limit2_config_def example_args_def)
  have f: "float_of_num (NInt 15) = Inr (Finite 15)"
    by (simp add: int_too_large_def)
  have e1: "checkLimitAndTimeout (clock10 1) None (clock10 0) (Some (NInt 15)) 1 (Some 2) = Inr NoBound"
    by (simp add: checkLimitAndTimeout_def timeoutExpired_def int_too_large_def clock10_def)
  have e: "\<forall>j. 1 \<le> j \<and> j \<le> Suc 0 \<longrightarrow>
             checkLimitAndTimeout (clock10 j) None (clock10 0) (Some (NInt 15)) (int j)
               (c_limit timeout15_limit2_config) = Inr NoBound"
  proof (intro allI impI)
    fix j :: nat assume "1 \<le> j \<and> j \<le> Suc 0"
    then have "j = 1" by simp
    then show "checkLimitAndTimeout (clock10 j) None (clock10 0) (Some (NInt 15)) (int j)
               (c_limit timeout15_limit2_config) = Inr NoBound"
      using e1 by (simp add: timeout15_limit2_config_def)
  qed
  have l: "clock10 0 + 15 < clock10 (Suc (Suc 0))"
    by (simp add: clock10_def)
  have h: "params_ok (blank timeout15_limit2_args) (strip timeout15_limit2_args)
             (whitelistRegexes timeout15_limit2_args) (blacklistRegexes timeout15_limit2_args) = None \<and>
          c_default timeout15_limit2_config = None \<and>
          c_timeout timeout15_limit2_config = Some (NInt 15) \<and>
          (\<forall>x. \<not> accepts (c_validationFunc timeout15_limit2_config) x) \<and>
          (\<forall>x. \<exists>y. fst (applyTransform timeout15_limit2_config x) = Inr y) \<and>
          Suc 0 < length [''a'', ''b'', ''c'']"
    by (simp add: params_ok_def timeout15_limit2_config_def accepts_def reject_all_def
                  applyTransform_def)
  have v: "c_validationFunc timeout15_limit2_config = reject_all"
    by (simp add: timeout15_limit2_config_def)
  have "fst (genericInput params_ok clock10 [''a'', ''b'', ''c''] timeout15_limit2_args)
          = Raised TimeoutException \<and>
        reads (snd (genericInput params_ok clock10 [''a'', ''b'', ''c''] timeout15_limit2_args))
          = take (Suc (Suc 0)) [''a'', ''b'', ''c''] \<and>
        last (snd (genericInput params_ok clock10 [''a'', ''b'', ''c''] timeout15_limit2_args))
          = Check (Suc (Suc 0))"
    using timeout_raised_at_first_late_failure [OF c, where validateGenericParameters = params_ok
             and clock = clock10 and stdin = "[''a'', ''b'', ''c'']" and T = 15 and k = "Suc 0"
             and tmo = "NInt 15"]
          e f h l
    by blast
  moreover have "checks_wf reject_all 0 False
     (snd (genericInput params_ok clock10 [''a'', ''b'', ''c''] timeout15_limit2_args))"
    using timeout_raised_at_first_late_failure [OF c, where validateGenericParameters = params_ok
             and clock = clock10 and stdin = "[''a'', ''b'', ''c'']"] v
    by simp
  ultimately show ?thesis using c f e1 l by (simp add: numeral_2_eq_2)
qed

section \<open>The post-validation transform\<close>

text \<open>
  Claim C9. In every run the post-validation transform is called at most once. When one
  is configured, the values it is called on are exactly the validated candidates that
  were accepted, it is called once exactly when some candidate was accepted, and the
  outcome of the run is its result on that candidate.
\<close>

theorem post_transform_applied_once:
  assumes "checkArgs a = Inr cfg"
      and "genericInput validateGenericParameters clock stdin a = (out, tr)"
  shows "length (posts tr) \<le> 1 \<and>
         (fun_of (postValidateApplyFunc a) = Some g \<longrightarrow>
            posts tr = filter (accepts (c_validationFunc cfg)) (validated tr) \<and>
            ((\<exists>c \<in> set (validated tr). accepts (c_validationFunc cfg) c) = (length (posts tr) = 1)) \<and>
            (\<forall>c. posts tr = [c] \<longrightarrow> out = callFunc g c))"
proof (cases "validateGenericParameters (blank a) (strip a) (whitelistRegexes a) (blacklistRegexes a)")
  case (Some msg)
  then show ?thesis using assms by (auto simp: genericInput_def)
next
  case None
  then have l: "inputLoop cfg clock (clock 0) 0 stdin = (out, tr)"
    using assms by (simp add: genericInput_def)
  have pf: "c_postValidateApplyFunc cfg = postValidateApplyFunc a"
    using checkArgs_fields(1) [OF assms(1)] .
  have len: "length (posts tr) \<le> 1"
    using loop_posts [of cfg clock "clock 0" 0 stdin] l by simp
  have rest: "posts tr = filter (accepts (c_validationFunc cfg)) (validated tr) \<and>
            ((\<exists>c \<in> set (validated tr). accepts (c_validationFunc cfg) c) = (length (posts tr) = 1)) \<and>
            (\<forall>c. posts tr = [c] \<longrightarrow> out = callFunc g c)"
    if g: "fun_of (postValidateApplyFunc a) = Some g"
  proof -
    have eq: "posts tr = filter (accepts (c_validationFunc cfg)) (validated tr)"
      using loop_posts [of cfg clock "clock 0" 0 stdin] l g pf by simp
    have res: "\<forall>c. posts tr = [c] \<longrightarrow> out = callFunc g c"
      using loop_posts [of cfg clock "clock 0" 0 stdin] l g pf by simp
    have "(\<exists>c \<in> set (validated tr). accepts (c_validationFunc cfg) c) = (posts tr \<noteq> [])"
      unfolding eq by (simp add: filter_empty_conv)
    also have "\<dots> = (length (posts tr) = 1)"
      using len by (cases "posts tr") auto
    finally show ?thesis using eq res by simp
  qed
  show ?thesis using len rest by blast
qed

theorem post_transform_applied_once_witness:
  "checkArgs post_args = Inr post_config \<and>
   genericInput params_ok frozen_clock [''a'', ''42'', ''b''] post_args =
     (Returned ''42!'',
      [Print ''> '', Read ''a'', Validate ''a'', Check 1, Print (''not 42'' @ [CHR 0x0A]),
       Print ''> '', Read ''42'', Validate ''42'', PostApply ''42'']) \<and>
   posts [Print ''> '', Read ''a'', Validate ''a'', Check 1, Print (''not 42'' @ [CHR 0x0A]),
       Print ''> '', Read ''42'', Validate ''42'', PostApply ''42''] = [''42''] \<and>
   Returned ''42!'' = callFunc exclaim ''42''"
proof -
  have c: "checkArgs post_args = Inr post_config"
    by (simp add: checkArgs_def post_args_def post_config_def example_args_def)
  have r: "genericInput params_ok frozen_clock [''a'', ''42'', ''b''] post_args =
     (Returned ''42!'',
      [Print ''> '', Read ''a'', Validate ''a'', Check 1, Print (''not 42'' @ [CHR 0x0A]),
       Print ''> '', Read ''42'', Validate ''42'', PostApply ''42''])"
    by (simp add: run_defs post_args_def)
  have g: "fun_of (postValidateApplyFunc post_args) = Some exclaim"
    by (simp add: post_args_def example_args_def)
  show ?thesis
    using post_transform_applied_once [OF c r, where g = exclaim] c r g by simp
qed

section \<open>The wrappers and the parameter checks\<close>

text \<open>
  Claim C7. The validation calls built by \<^verbatim>\<open>inputRegex\<close>, \<^verbatim>\<open>inputChoice\<close> and
  \<^verbatim>\<open>inputMenu\<close> do not carry the caller's arguments: whatever \<open>regex\<close> and \<open>flags\<close> are,
  the call passes the empty pattern and the flags 0, and whatever \<open>numbered\<close>, \<open>lettered\<close>
  and \<open>caseSensitive\<close> are, the call passes \<^verbatim>\<open>False\<close> for each.
\<close>

theorem wrappers_drop_domain_parameters:
  "vr_regex (inputRegex_call (PStr ''[0-9]+'') (PInt 2) example_args ''abc'') = PStr [] \<and>
   vr_flags (inputRegex_call (PStr ''[0-9]+'') (PInt 2) example_args ''abc'') = PInt 0 \<and>
   vc_numbered (inputChoice_call abc_choices (PBool True) (PBool False) (PBool True) example_args ''B'')
     = PBool False \<and>
   vc_lettered (inputChoice_call abc_choices (PBool False) (PBool True) (PBool True) example_args ''B'')
     = PBool False \<and>
   vc_caseSensitive (inputChoice_call abc_choices (PBool True) (PBool False) (PBool True) example_args ''B'')
     = PBool False \<and>
   vc_numbered (inputMenu_call abc_choices (PBool True) (PBool False) (PBool True) example_args ''2'')
     = PBool False \<and>
   vc_lettered (inputMenu_call abc_choices (PBool False) (PBool True) (PBool True) example_args ''B'')
     = PBool False \<and>
   vc_caseSensitive (inputMenu_call abc_choices (PBool True) (PBool False) (PBool True) example_args ''B'')
     = PBool False"
  by (simp add: inputRegex_call_def inputChoice_call_def inputMenu_call_def)

text \<open>
  The same holds for every call: the outcome of \<^verbatim>\<open>inputRegex\<close> does not depend on its
  \<open>regex\<close> and \<open>flags\<close> arguments.
\<close>

lemma inputRegex_ignores_regex_and_flags:
  "inputRegex validateRegex validateGenericParameters clock stdin regex flags a =
   inputRegex validateRegex validateGenericParameters clock stdin regex' flags' a"
  by (simp add: inputRegex_def inputRegex_validationFunc_def inputRegex_call_def)

text \<open>
  Claim C8. The checks of lines 113 to 127 cover \<open>prompt\<close>, \<open>default\<close>, \<open>timeout\<close>,
  \<open>limit\<close>, \<open>strip\<close>, \<open>validationFunc\<close> and \<open>applyFunc\<close>, but not
  \<open>postValidateApplyFunc\<close>. With the integer 5 in its place the call passes the checks,
  prints the prompt, reads a line, validates it, and only then fails with a
  \<open>TypeError\<close>.
\<close>

theorem unchecked_post_transform_fails_after_io:
  "genericInput params_ok frozen_clock [''42''] bad_post_args =
     (Raised TypeError, [Print ''> '', Read ''42'', Validate ''42''])"
  by (simp add: run_defs bad_post_args_def)

end
